theory Spec2Isabelle
  imports Complex_Main "HOL-Library.Char_ord" "HOL-Library.List_Lexorder" "HOL-Library.Sublist"
    "HOL-Library.AList" "HOL-Library.Multiset"
begin

section \<open>gallery.py: an HTML gallery from a directory of image files\<close>

text \<open>
  A shallow embedding of \<^verbatim>\<open>gallery.py\<close> (Python 3, as its header requires). A Python
  string is modelled as a \<^typ>\<open>string\<close>, each \<^typ>\<open>char\<close> standing for the code point of the
  same number: these are the strings of code points below 256, compared as Python compares
  them. Python integers are \<^typ>\<open>int\<close>, raised exceptions the left summand of a sum type. Photo objects live in an explicit store, because an Album's
  list and its name dictionary share them and \<^verbatim>\<open>Photo.small\<close> mutates them in place.
\<close>

subsection \<open>Exceptions and dynamically typed values\<close>

datatype error =
    AttributeError string
  | TypeError string
  | IndexError string
  | KeyError string
  | IOError string
  | FileNotFoundError string
  | FileExistsError string
  | NotADirectoryError string
  | IsADirectoryError string
  | UnidentifiedImageError string
  | ValueError string
  | ZeroDivisionError

subsection \<open>Python string operations used by the source\<close>

text \<open>\<^verbatim>\<open>str.lower\<close>. Below code point 256 the letters with a lower-case form are \<^verbatim>\<open>A-Z\<close>
  (65 to 90) and the Latin-1 capitals 192 to 222 without the multiplication sign 215; the
  lower-case form is 32 places up, and every other code point stays.\<close>

definition lower_char :: "char \<Rightarrow> char" where
  "lower_char c =
     (let n = (of_char c :: nat)
      in if (65 \<le> n \<and> n \<le> 90) \<or> (192 \<le> n \<and> n \<le> 222 \<and> n \<noteq> 215) then char_of (n + 32) else c)"

definition lower :: "string \<Rightarrow> string" where
  "lower s = map lower_char s"

text \<open>\<^verbatim>\<open>s.rfind(c)\<close> for a one-character needle: the last index of \<open>c\<close>, or \<open>-1\<close>.\<close>

fun rfind :: "string \<Rightarrow> char \<Rightarrow> int" where
  "rfind [] c = - 1"
| "rfind (x # xs) c =
     (let i = rfind xs c in if i \<noteq> - 1 then i + 1 else if x = c then 0 else - 1)"

text \<open>The slices \<^verbatim>\<open>s[i:]\<close> and \<^verbatim>\<open>s[:i]\<close> for \<open>0 \<le> i\<close>.\<close>

definition slice_from :: "string \<Rightarrow> int \<Rightarrow> string" where
  "slice_from s i = drop (nat i) s"

definition slice_to :: "string \<Rightarrow> int \<Rightarrow> string" where
  "slice_to s i = take (nat i) s"

text \<open>\<^verbatim>\<open>needle in haystack\<close> on strings.\<close>

fun contains :: "string \<Rightarrow> string \<Rightarrow> bool" where
  "contains needle [] = (needle = [])"
| "contains needle (y # ys) = (prefix needle (y # ys) \<or> contains needle ys)"

text \<open>\<^verbatim>\<open>s.replace(old, new)\<close> for a one-character \<open>old\<close>.\<close>

definition replace_char :: "string \<Rightarrow> char \<Rightarrow> string \<Rightarrow> string" where
  "replace_char s old new = concat (map (\<lambda>c. if c = old then new else [c]) s)"

text \<open>\<^verbatim>\<open>os.path.split\<close> of Python's \<^verbatim>\<open>posixpath\<close>: head and tail around the last slash,
  trailing slashes stripped from the head unless it consists of slashes only.\<close>

definition rstrip_slash :: "string \<Rightarrow> string" where
  "rstrip_slash s = rev (dropWhile (\<lambda>c. c = CHR ''/'') (rev s))"

definition os_path_split :: "string \<Rightarrow> string \<times> string" where
  "os_path_split p =
     (let i = rfind p CHR ''/'' + 1;
          head = slice_to p i;
          tail = slice_from p i
      in (if head \<noteq> [] \<and> head \<noteq> replicate (length head) CHR ''/''
          then rstrip_slash head else head, tail))"

subsection \<open>Photo\<close>

definition PHOTO_EXTENSIONS :: "string list" where
  "PHOTO_EXTENSIONS = [''jpg'', ''jpeg'', ''png'']"

definition PROPS :: "string list" where
  "PROPS = [''title'']"

text \<open>The instance attributes set by \<^verbatim>\<open>Photo.__init__\<close>. The fields \<open>size\<close> and
  \<open>thumb_size\<close> of the source are \<open>size_photo\<close> and \<open>thumb_size_photo\<close> here.\<close>

record photo =
  filename :: string
  caption :: string
  rating :: int
  size_photo :: "int \<times> int"
  thumb_size_photo :: "int \<times> int"

definition Photo_init :: "string \<Rightarrow> string \<Rightarrow> int \<Rightarrow> photo" where
  "Photo_init fname cap rat =
     \<lparr>filename = fname, caption = cap, rating = rat, size_photo = (0, 0), thumb_size_photo = (0, 0)\<rparr>"

text \<open>The lazily computed attributes \<^verbatim>\<open>path\<close>, \<^verbatim>\<open>name\<close> and \<^verbatim>\<open>base\<close>: each is computed from
  the immutable file name on first access and cached, so each is a function of the Photo.\<close>

definition path :: "photo \<Rightarrow> string" where
  "path p = fst (os_path_split (filename p))"

definition name :: "photo \<Rightarrow> string" where
  "name p = snd (os_path_split (filename p))"

definition base :: "photo \<Rightarrow> string" where
  "base p = (let i = rfind (name p) CHR ''.'' in if i = - 1 then name p else slice_to (name p) i)"

text \<open>\<^verbatim>\<open>Photo.ext\<close> is declared as a plain method (no \<^verbatim>\<open>@prop\<close> or \<^verbatim>\<open>@lazy_prop\<close> decorator).
  Called, it returns the text after the last dot of the name.\<close>

definition ext :: "photo \<Rightarrow> string" where
  "ext p = (let i = rfind (name p) CHR ''.'' in if i = - 1 then [] else slice_from (name p) (i + 1))"

text \<open>What the attribute access \<^verbatim>\<open>self.ext\<close> evaluates to: the bound method itself, since
  nothing calls it. A method object has no attribute \<^verbatim>\<open>lower\<close>, so looking it up raises.\<close>

datatype attribute_value = BoundMethod "photo \<Rightarrow> string" photo | StrValue string

definition getattr_ext :: "photo \<Rightarrow> attribute_value" where
  "getattr_ext p = BoundMethod ext p"

fun call_lower :: "attribute_value \<Rightarrow> error + string" where
  "call_lower (StrValue s) = Inr (lower s)"
| "call_lower (BoundMethod f p) = Inl (AttributeError ''lower'')"

definition is_photo :: "photo \<Rightarrow> error + bool" where
  "is_photo p =
     (case call_lower (getattr_ext p) of
        Inl e \<Rightarrow> Inl e
      | Inr s \<Rightarrow> Inr (s \<in> set PHOTO_EXTENSIONS))"

text \<open>The module-level function \<^verbatim>\<open>extension\<close>, the sibling of \<^verbatim>\<open>Photo.ext\<close> on plain names.\<close>

definition extension :: "string \<Rightarrow> string" where
  "extension file = (let i = rfind file CHR ''.'' in if i = - 1 then [] else slice_from file (i + 1))"

subsection \<open>The object store\<close>

text \<open>A reference is an index into the store; allocation appends. Python's default
  \<^verbatim>\<open>==\<close> on Photo objects (the class defines no \<^verbatim>\<open>__eq__\<close>) is equality of references.\<close>

type_synonym ref = nat

type_synonym heap = "photo list"

definition alloc :: "heap \<Rightarrow> photo \<Rightarrow> ref \<times> heap" where
  "alloc h p = (length h, h @ [p])"

text \<open>\<^verbatim>\<open>Photo.__lt__\<close> on two Photos, which is all that \<^verbatim>\<open>list.sort\<close> of a list of
  Photos ever evaluates. \<^verbatim>\<open>list.sort\<close> is a stable comparison sort using \<^verbatim>\<open>__lt__\<close> only, so
  it is the stable sort by file name.\<close>

definition sort_photos :: "heap \<Rightarrow> ref list \<Rightarrow> ref list" where
  "sort_photos h ps = sort_key (\<lambda>r. filename (h ! r)) ps"

subsection \<open>Formatting\<close>

text \<open>\<^verbatim>\<open>"%s" % n\<close> and \<^verbatim>\<open>"%i" % n\<close> for an integer: its decimal digits, with a sign.\<close>

fun str_nat :: "nat \<Rightarrow> string" where
  "str_nat n = (if n < 10 then [char_of (48 + n)] else str_nat (n div 10) @ [char_of (48 + n mod 10)])"

declare str_nat.simps [simp del]

definition str_int :: "int \<Rightarrow> string" where
  "str_int i = (if i < 0 then CHR ''-'' # str_nat (nat (- i)) else str_nat (nat i))"

definition squote :: string where
  "squote = [CHR 0x27]"

subsection \<open>Album\<close>

text \<open>The instance attributes of an Album. The name dictionary keeps insertion order and
  overwrites in place, as a Python dict does. \<open>no_output_attr\<close> is the attribute \<^verbatim>\<open>no_output\<close>
  that only the function \<^verbatim>\<open>album\<close> sets on the object.\<close>

record album =
  photos :: "ref list"
  photo_dict :: "(string \<times> ref) list"
  title :: string
  thumb_size :: int
  rel_dir :: string
  no_output_attr :: "bool option"

definition create_photo_dict :: "heap \<Rightarrow> ref list \<Rightarrow> (string \<times> ref) list" where
  "create_photo_dict h ps = foldl (\<lambda>d F. AList.update (lower (name (h ! F))) F d) [] ps"

definition set_title :: "string \<Rightarrow> album \<Rightarrow> album" where
  "set_title t self = self\<lparr>title := replace_char t CHR ''\<newline>'' '' ''\<rparr>"

text \<open>\<^verbatim>\<open>setattr(self, P, getattr(derived_from, P))\<close> guarded by \<^verbatim>\<open>hasattr\<close>, for the data
  attributes an Album carries; any other name of \<open>PROPS\<close> is absent from \<open>derived_from\<close>.\<close>

definition copy_attr :: "string \<Rightarrow> album \<Rightarrow> album \<Rightarrow> album" where
  "copy_attr P derived_from self =
     (if P = ''title'' then set_title (title derived_from) self
      else if P = ''thumb_size'' then self\<lparr>thumb_size := thumb_size derived_from\<rparr>
      else if P = ''rel_dir'' then self\<lparr>rel_dir := rel_dir derived_from\<rparr>
      else if P = ''no_output'' \<and> no_output_attr derived_from \<noteq> None
        then self\<lparr>no_output_attr := no_output_attr derived_from\<rparr>
      else self)"

definition Album_init :: "heap \<Rightarrow> ref list \<Rightarrow> string \<Rightarrow> string \<Rightarrow> album option \<Rightarrow> album" where
  "Album_init h ps t rd derived_from =
     (let sorted_ps = sort_photos h ps;
          self = set_title t
                   \<lparr>photos = sorted_ps, photo_dict = create_photo_dict h sorted_ps, title = [],
                    thumb_size = 200, rel_dir = rd, no_output_attr = None\<rparr>
      in case derived_from of
           None \<Rightarrow> self
         | Some d \<Rightarrow> foldl (\<lambda>s P. if P \<noteq> ''title'' then copy_attr P d s else s) self PROPS)"

definition Album_sort :: "heap \<Rightarrow> album \<Rightarrow> album" where
  "Album_sort h self =
     (let sorted_ps = sort_photos h (photos self)
      in self\<lparr>photos := sorted_ps, photo_dict := create_photo_dict h sorted_ps\<rparr>)"

definition Album_len :: "album \<Rightarrow> int" where
  "Album_len self = int (length (photos self))"

text \<open>Python list indexing: a negative index counts from the end; \<open>None\<close> is \<^verbatim>\<open>IndexError\<close>.\<close>

definition list_getitem :: "'a list \<Rightarrow> int \<Rightarrow> 'a option" where
  "list_getitem xs i =
     (if 0 \<le> i \<and> i < int (length xs) then Some (xs ! nat i)
      else if - int (length xs) \<le> i \<and> i < 0 then Some (xs ! nat (int (length xs) + i))
      else None)"

text \<open>The slice \<^verbatim>\<open>xs[:count]\<close>, for any integer \<open>count\<close>.\<close>

definition list_slice_to :: "'a list \<Rightarrow> int \<Rightarrow> 'a list" where
  "list_slice_to xs c = (if c < 0 then take (nat (int (length xs) + c)) xs else take (nat c) xs)"

text \<open>The keys of \<^verbatim>\<open>Album.__getitem__\<close>: an \<^verbatim>\<open>int\<close>, or a name (any other object is first
  turned into a string by \<^verbatim>\<open>str\<close>).\<close>

datatype key = IntKey int | StrKey string

fun Album_getitem :: "album \<Rightarrow> key \<Rightarrow> error + ref" where
  "Album_getitem self (IntKey x) =
     (case list_getitem (photos self) x of
        Some r \<Rightarrow> Inr r
      | None \<Rightarrow> Inl (IndexError (''The index must satisfy 0 <= i < '' @ str_int (Album_len self))))"
| "Album_getitem self (StrKey x) =
     (case map_of (photo_dict self) (lower x) of
        Some r \<Rightarrow> Inr r
      | None \<Rightarrow> Inl (KeyError (''No photo with name '' @ squote @ x @ squote)))"

definition Album_photo :: "album \<Rightarrow> string \<Rightarrow> error + ref" where
  "Album_photo self n =
     (case map_of (photo_dict self) n of
        Some r \<Rightarrow> Inr r
      | None \<Rightarrow> Inl (KeyError (''No photo named '' @ squote @ n @ squote @ '' in the album.'')))"

text \<open>The subscription \<^verbatim>\<open>A[x]\<close> and the call \<^verbatim>\<open>A.photo(n)\<close> as statements on the Album object:
  what they evaluate to, and the object they leave. Neither method assigns to an attribute.\<close>

definition getitem_stmt :: "album \<Rightarrow> key \<Rightarrow> (error + ref) \<times> album" where
  "getitem_stmt self x = (Album_getitem self x, self)"

definition photo_stmt :: "album \<Rightarrow> string \<Rightarrow> (error + ref) \<times> album" where
  "photo_stmt self n = (Album_photo self n, self)"

text \<open>Values a caller may pass where the source tests \<^verbatim>\<open>isinstance\<close>.\<close>

datatype pyobj = PhotoObj ref | AlbumObj album | IntObj int | StrObj string | NoneObj

text \<open>What a comparison method may return.\<close>

datatype pyval = PyBool bool | PyInt int

fun truthy :: "pyval \<Rightarrow> bool" where
  "truthy (PyBool b) = b"
| "truthy (PyInt i) = (i \<noteq> 0)"

fun isinstance_Photo :: "pyobj \<Rightarrow> bool" where
  "isinstance_Photo (PhotoObj r) = True"
| "isinstance_Photo _ = False"

text \<open>\<^verbatim>\<open>Photo.__lt__\<close>. The expression \<^verbatim>\<open>p < v\<close> evaluates to what \<^verbatim>\<open>p.__lt__(v)\<close> returns
  whenever that is not \<^verbatim>\<open>NotImplemented\<close>, which this method never returns.\<close>

fun Photo_lt :: "heap \<Rightarrow> ref \<Rightarrow> pyobj \<Rightarrow> pyval" where
  "Photo_lt h self (PhotoObj other) = PyBool (filename (h ! self) < filename (h ! other))"
| "Photo_lt h self other = PyInt (- 1)"

text \<open>The attribute read \<^verbatim>\<open>other.rel_path\<close> of \<^verbatim>\<open>Album.__add__\<close>. No statement of the program
  gives an Album an attribute of that name (the constructor sets \<^verbatim>\<open>rel_dir\<close>), so the read
  raises.\<close>

definition getattr_rel_path :: "album \<Rightarrow> error + string" where
  "getattr_rel_path other = Inl (AttributeError ''rel_path'')"

fun Album_add :: "heap \<Rightarrow> album \<Rightarrow> pyobj \<Rightarrow> error + album" where
  "Album_add h self (AlbumObj other) =
     (let ps = photos self @ photos other;
          t = title self @ '' + '' @ title other
      in case getattr_rel_path other of
           Inl e \<Rightarrow> Inl e
         | Inr rp \<Rightarrow> Inr (Album_init h ps t rp (Some self)))"
| "Album_add h self other = Inl (TypeError ''other must be an Album.'')"

definition max_count :: "heap \<Rightarrow> album \<Rightarrow> int \<Rightarrow> album" where
  "max_count h self cnt =
     Album_init h (list_slice_to (photos self) cnt) (title self) (rel_dir self) (Some self)"

subsection \<open>Thumbnail dimensions\<close>

text \<open>The expression \<^verbatim>\<open>int(a / b)\<close> on Python integers: \<^verbatim>\<open>/\<close> is true division, which raises
  on a zero divisor, and \<^verbatim>\<open>int\<close> truncates towards zero. The quotient is modelled as the
  exact real quotient. Python computes the double nearest to it, which truncates to the same
  integer whenever dividend and divisor are positive and add up to at most \<open>2^52\<close>: the
  exact quotient then lies at least one spacing of the doubles below the next integer.\<close>

definition py_truediv :: "int \<Rightarrow> int \<Rightarrow> error + real" where
  "py_truediv a b = (if b = 0 then Inl ZeroDivisionError else Inr (real_of_int a / real_of_int b))"

definition py_int :: "real \<Rightarrow> int" where
  "py_int x = (if 0 \<le> x then \<lfloor>x\<rfloor> else \<lceil>x\<rceil>)"

text \<open>The two branches of \<^verbatim>\<open>Photo.small\<close> that compute the size of the thumbnail from the
  target edge and \<^verbatim>\<open>im.size\<close>.\<close>

definition thumb_dims :: "int \<Rightarrow> int \<times> int \<Rightarrow> error + int \<times> int" where
  "thumb_dims target im_size =
     (if fst im_size > snd im_size
      then (case py_truediv (target * snd im_size) (fst im_size) of
              Inl e \<Rightarrow> Inl e
            | Inr q \<Rightarrow> Inr (target, py_int q))
      else (case py_truediv (target * fst im_size) (snd im_size) of
              Inl e \<Rightarrow> Inl e
            | Inr q \<Rightarrow> Inr (py_int q, target)))"

subsection \<open>The file system and the process environment\<close>

text \<open>A file is a text, a sequence of bytes, or an image, of which the program uses the pixel
  size and the imaging library the mode (\<^verbatim>\<open>RGB\<close>, \<^verbatim>\<open>L\<close>, \<^verbatim>\<open>RGBA\<close>, \<^verbatim>\<open>P\<close>, ...). The file system maps absolute paths, as lists of components, to nodes; the
  order of its entries is the order in which \<^verbatim>\<open>os.listdir\<close> reports them. There are no
  symbolic links.\<close>

record image =
  size_image :: "int \<times> int"
  mode_image :: string

datatype node = Dir | TextFile string | BinaryFile "nat list" | ImageFile image

type_synonym fs = "(string list \<times> node) list"

text \<open>The module-level names the functions read (set by the script's main block), the
  working directory, the permutation \<^verbatim>\<open>random.shuffle\<close> picks for the \<open>k\<close>-th photo, and the
  byte format of \<^verbatim>\<open>pickle\<close>, which is left open.\<close>

record env =
  cwd :: string
  album_path :: string
  no_output :: bool
  with_links :: bool
  links :: "(string \<times> string) list"
  shuffle :: "nat \<Rightarrow> ref list \<Rightarrow> ref list"
  pickle_dumps :: "album \<Rightarrow> heap \<Rightarrow> nat list"
  pickle_loads :: "nat list \<Rightarrow> album option"

record world =
  files :: fs
  store :: heap

text \<open>Statements run in a world and either return a value or raise; the world they leave
  behind is kept in both cases.\<close>

type_synonym 'a io = "world \<Rightarrow> (error + 'a) \<times> world"

definition return_io :: "'a \<Rightarrow> 'a io" where
  "return_io x = (\<lambda>w. (Inr x, w))"

definition raise_io :: "error \<Rightarrow> 'a io" where
  "raise_io e = (\<lambda>w. (Inl e, w))"

definition bind_io :: "'a io \<Rightarrow> ('a \<Rightarrow> 'b io) \<Rightarrow> 'b io" where
  "bind_io m f = (\<lambda>w. case m w of (Inl e, w') \<Rightarrow> (Inl e, w') | (Inr x, w') \<Rightarrow> f x w')"

definition lift_io :: "error + 'a \<Rightarrow> 'a io" where
  "lift_io r = (\<lambda>w. (r, w))"

text \<open>Path resolution: split at slashes, drop empty and \<open>.\<close> components, step back at \<open>..\<close>.\<close>

fun split_on :: "char \<Rightarrow> string \<Rightarrow> string list" where
  "split_on c [] = [[]]"
| "split_on c (x # xs) =
     (if x = c then [] # split_on c xs
      else (case split_on c xs of [] \<Rightarrow> [[x]] | u # us \<Rightarrow> (x # u) # us))"

fun walk :: "string list \<Rightarrow> string list \<Rightarrow> string list" where
  "walk cur [] = cur"
| "walk cur (c # cs) =
     (if c = [] \<or> c = ''.'' then walk cur cs
      else if c = ''..'' then walk (butlast cur) cs
      else walk (cur @ [c]) cs)"

definition resolve :: "env \<Rightarrow> string \<Rightarrow> string list" where
  "resolve e p =
     (if p \<noteq> [] \<and> hd p = CHR ''/'' then walk [] (split_on CHR ''/'' p)
      else walk (walk [] (split_on CHR ''/'' (cwd e))) (split_on CHR ''/'' p))"

definition lookup :: "fs \<Rightarrow> string list \<Rightarrow> node option" where
  "lookup f p = (if p = [] then Some Dir else map_of f p)"

definition os_path_exists :: "env \<Rightarrow> string \<Rightarrow> world \<Rightarrow> bool" where
  "os_path_exists e p w = (lookup (files w) (resolve e p) \<noteq> None)"

definition os_path_isdir :: "env \<Rightarrow> string \<Rightarrow> world \<Rightarrow> bool" where
  "os_path_isdir e p w = (lookup (files w) (resolve e p) = Some Dir)"

text \<open>\<^verbatim>\<open>os.path.join\<close> of two components (\<^verbatim>\<open>posixpath\<close>).\<close>

definition os_path_join :: "string \<Rightarrow> string \<Rightarrow> string" where
  "os_path_join a b =
     (if b \<noteq> [] \<and> hd b = CHR ''/'' then b
      else if a = [] \<or> last a = CHR ''/'' then a @ b
      else a @ ''/'' @ b)"

text \<open>\<^verbatim>\<open>os.listdir\<close> of a directory (the source calls it only after \<^verbatim>\<open>os.path.isdir\<close>).\<close>

definition os_listdir :: "env \<Rightarrow> string \<Rightarrow> world \<Rightarrow> string list" where
  "os_listdir e p w =
     map (\<lambda>(q, n). last q) (filter (\<lambda>(q, n). q \<noteq> [] \<and> butlast q = resolve e p) (files w))"

definition os_mkdir :: "env \<Rightarrow> string \<Rightarrow> unit io" where
  "os_mkdir e p w =
     (let q = resolve e p in
      if lookup (files w) q \<noteq> None then (Inl (FileExistsError p), w)
      else (case lookup (files w) (butlast q) of
              None \<Rightarrow> (Inl (FileNotFoundError p), w)
            | Some Dir \<Rightarrow> (Inr (), w\<lparr>files := files w @ [(q, Dir)]\<rparr>)
            | Some _ \<Rightarrow> (Inl (NotADirectoryError p), w)))"

text \<open>\<^verbatim>\<open>os.remove\<close>, which removes a file and refuses a directory.\<close>

definition os_remove :: "env \<Rightarrow> string \<Rightarrow> unit io" where
  "os_remove e p w =
     (let q = resolve e p in
      case lookup (files w) q of
        None \<Rightarrow> (Inl (FileNotFoundError p), w)
      | Some Dir \<Rightarrow> (Inl (IsADirectoryError p), w)
      | Some _ \<Rightarrow> (Inr (), w\<lparr>files := AList.delete q (files w)\<rparr>))"

text \<open>Creating or overwriting the file at a path with a node, as \<^verbatim>\<open>open(p, "w")\<close> followed by
  a write and as \<^verbatim>\<open>Image.save\<close> do.\<close>

definition put_file :: "env \<Rightarrow> string \<Rightarrow> node \<Rightarrow> unit io" where
  "put_file e p n w =
     (let q = resolve e p in
      case lookup (files w) q of
        Some Dir \<Rightarrow> (Inl (IsADirectoryError p), w)
      | _ \<Rightarrow> (case lookup (files w) (butlast q) of
                None \<Rightarrow> (Inl (FileNotFoundError p), w)
              | Some Dir \<Rightarrow> (Inr (), w\<lparr>files := AList.update q n (files w)\<rparr>)
              | Some _ \<Rightarrow> (Inl (NotADirectoryError p), w)))"

definition write_text :: "env \<Rightarrow> string \<Rightarrow> string \<Rightarrow> unit io" where
  "write_text e p s = put_file e p (TextFile s)"

text \<open>The imaging library. \<^verbatim>\<open>Image.open\<close> reads an image file. \<^verbatim>\<open>im.resize\<close> keeps the mode
  and refuses a size with an edge below one pixel. \<^verbatim>\<open>im.save\<close> to a name ending in \<^verbatim>\<open>.jpg\<close>
  writes a JPEG file, which can hold only the modes below and no edge above 65500 pixels;
  what a failed save leaves at the place of the file is not modelled.\<close>

definition Image_open :: "env \<Rightarrow> string \<Rightarrow> image io" where
  "Image_open e p w =
     (case lookup (files w) (resolve e p) of
        None \<Rightarrow> (Inl (FileNotFoundError p), w)
      | Some Dir \<Rightarrow> (Inl (IsADirectoryError p), w)
      | Some (ImageFile im) \<Rightarrow> (Inr im, w)
      | Some _ \<Rightarrow> (Inl (UnidentifiedImageError p), w))"

definition Image_resize :: "image \<Rightarrow> int \<times> int \<Rightarrow> error + image" where
  "Image_resize im dims =
     (if fst dims < 1 \<or> snd dims < 1 then Inl (ValueError ''height and width must be > 0'')
      else Inr (im\<lparr>size_image := dims\<rparr>))"

definition JPEG_MODES :: "string list" where
  "JPEG_MODES = [''1'', ''L'', ''RGB'', ''RGBX'', ''CMYK'', ''YCbCr'']"

definition Image_save_jpeg :: "env \<Rightarrow> image \<Rightarrow> string \<Rightarrow> unit io" where
  "Image_save_jpeg e im file =
     (if mode_image im \<notin> set JPEG_MODES
      then raise_io (IOError (''cannot write mode '' @ mode_image im @ '' as JPEG''))
      else if 65500 < fst (size_image im) \<or> 65500 < snd (size_image im)
      then raise_io (IOError ''encoder error -2 when writing image file'')
      else put_file e file (ImageFile im))"

text \<open>\<^verbatim>\<open>s.replace(old, new)\<close> for a non-empty \<open>old\<close>: left to right, without overlaps.\<close>

function replace_str :: "string \<Rightarrow> string \<Rightarrow> string \<Rightarrow> string" where
  "replace_str [] old new = []"
| "replace_str (c # cs) old new =
     (if old \<noteq> [] \<and> prefix old (c # cs)
      then new @ replace_str (drop (length old) (c # cs)) old new
      else c # replace_str cs old new)"
  by pat_completeness auto
termination
  by (relation "measure (\<lambda>(s, old, new). length s)") (auto simp: neq_Nil_conv)

subsection \<open>Photo.small\<close>

definition set_size :: "ref \<Rightarrow> int \<times> int \<Rightarrow> unit io" where
  "set_size self sz w = (Inr (), w\<lparr>store := (store w)[self := (store w ! self)\<lparr>size_photo := sz\<rparr>]\<rparr>)"

definition set_thumb_size :: "ref \<Rightarrow> int \<times> int \<Rightarrow> unit io" where
  "set_thumb_size self sz w =
     (Inr (), w\<lparr>store := (store w)[self := (store w ! self)\<lparr>thumb_size_photo := sz\<rparr>]\<rparr>)"

definition Photo_small :: "env \<Rightarrow> ref \<Rightarrow> int \<Rightarrow> string io" where
  "Photo_small e self target =
     (let dir = ''gallery/thumbs'' in
      bind_io (\<lambda>w. if os_path_exists e dir w \<and> \<not> os_path_isdir e dir w
                    then os_remove e dir w else (Inr (), w)) (\<lambda>_.
      bind_io (\<lambda>w. if \<not> os_path_exists e dir w then os_mkdir e dir w else (Inr (), w)) (\<lambda>_.
      (\<lambda>w. let P = store w ! self;
                file = dir @ ''/'' @ base P @ ''-thumb.jpg''
            in bind_io (Image_open e (os_path_join (path P) (name P))) (\<lambda>im.
               bind_io (set_size self (size_image im)) (\<lambda>_.
               bind_io (lift_io (thumb_dims target (size_image im))) (\<lambda>dims.
               bind_io (lift_io (Image_resize im dims)) (\<lambda>thumb.
               bind_io (Image_save_jpeg e thumb file) (\<lambda>_.
               bind_io (set_thumb_size self dims) (\<lambda>_.
               return_io (replace_str file ''gallery/'' []))))))) w))))"

subsection \<open>Rendering\<close>

text \<open>The pages are built with \<^verbatim>\<open>%\<close> formatting; \<^verbatim>\<open>%s\<close> inserts a string and \<^verbatim>\<open>%i\<close> the decimal
  digits of an integer. What the functions print to the terminal is not modelled.\<close>

definition generate_links :: "env \<Rightarrow> string" where
  \<open>generate_links e =
     (if with_links e \<and> links e \<noteq> []
      then ''<div class="links">\<newline>'' @
           concat (map (\<lambda>link. ''<a href="'' @ fst link @ ''">'' @ snd link @
                               ''</a><br>\<newline>'') (links e)) @
           ''</div>\<newline>''
      else [])\<close>

text \<open>The statements of \<^verbatim>\<open>Photo.html\<close> that extend \<^verbatim>\<open>body\<close>, in their order: the prefetch link
  of a narrow image, the link to the index, the thumbnail of the previous photo, the image
  itself (a link to the next photo), the thumbnail of the next photo, and the rest down to
  the random pictures.\<close>

definition body_prefetch :: "photo \<Rightarrow> album \<Rightarrow> string" where
  \<open>body_prefetch self album =
     (if fst (size_photo self) < 600
      then ''<link rel="prefetch" as="image" href="../'' @ rel_dir album @ ''/'' @
           caption self @ ''">\<newline>''
      else [])\<close>

definition body_index_link :: "album \<Rightarrow> string" where
  \<open>body_index_link album =
     ''<H1><A href="../index.html">'' @ title album @ ''</A></H1>\<newline>''\<close>

definition body_previous :: "photo \<Rightarrow> string" where
  \<open>body_previous prev =
     ''<A href="'' @ base prev @ ''.html" title="Previous"><img src="thumbs/'' @
     base prev @ ''-thumb.jpg"></A>\<newline>''\<close>

definition body_image :: "photo \<Rightarrow> album \<Rightarrow> photo \<Rightarrow> string" where
  \<open>body_image self album next =
     ''<A href="'' @ base next @ ''.html" title="Next"><IMG src="../'' @ rel_dir album @
     ''/'' @ caption self @ ''" width="'' @ str_int (fst (size_photo self)) @
     ''"></A>\<newline>''\<close>

definition body_next :: "photo \<Rightarrow> string" where
  \<open>body_next next =
     ''<A href="'' @ base next @ ''.html" title="Next"><img src="thumbs/'' @ base next @
     ''-thumb.jpg"></A>\<newline>''\<close>

definition body_rest :: "photo \<Rightarrow> album \<Rightarrow> photo list \<Rightarrow> string" where
  \<open>body_rest self album randoms =
     ''<br><a href="../'' @ rel_dir album @ ''/'' @ name self @ ''">'' @ name self @
     ''</A>'' @
     ''<a href="'' @ name self @
     ''" download title="Download">&#8659;</a></li>\<newline>'' @
     ''('' @ str_int (fst (size_photo self)) @ ''x'' @ str_int (snd (size_photo self)) @
     '')\<newline>'' @
     ''</div><!--id="page" -->\<newline>'' @
     ''<hr> '' @
     ''<span> random pics: </span>\<newline>'' @
     ''<div style="overflow:hidden; max-height: 200px">'' @
     concat (map (\<lambda>image. ''<A href="'' @ base image @ ''.html"><img src="thumbs/'' @
                         base image @ ''-thumb.jpg"></A>\<newline>'') randoms) @
     ''</div>''\<close>

definition Photo_html_body :: "photo \<Rightarrow> album \<Rightarrow> photo \<Rightarrow> photo \<Rightarrow> photo list \<Rightarrow> string" where
  "Photo_html_body self album prev next randoms =
     body_prefetch self album @ body_index_link album @ body_previous prev @
     body_image self album next @ body_next next @ body_rest self album randoms"

text \<open>The page template around the body.\<close>

definition page_head :: "env \<Rightarrow> photo \<Rightarrow> string" where
  \<open>page_head e self =
     ''<HTML>\<newline>'' @
     ''        <HEAD>\<newline>'' @
     ''           <TITLE>'' @ name self @ ''</TITLE>\<newline>'' @
     ''           <link href="../style.css" rel="stylesheet" />\<newline>'' @
     ''        </HEAD>\<newline>'' @
     ''        <BODY>\<newline>'' @
     ''            '' @ generate_links e @ ''\<newline>'' @
     ''           <div id="page">\<newline>'' @
     ''           ''\<close>

definition page_foot :: string where
  \<open>page_foot =
     ''\<newline>'' @
     ''        </BODY>\<newline>'' @
     ''        </HTML>\<newline>'' @
     ''        ''\<close>

definition Photo_html_page :: "env \<Rightarrow> photo \<Rightarrow> string \<Rightarrow> string" where
  "Photo_html_page e self body = page_head e self @ body @ page_foot"

definition Photo_html :: "env \<Rightarrow> ref \<Rightarrow> album \<Rightarrow> string \<Rightarrow> ref \<Rightarrow> ref \<Rightarrow> ref list \<Rightarrow> unit io" where
  "Photo_html e self album dir prev next randoms w =
     (let P = store w ! self;
          body = Photo_html_body P album (store w ! prev) (store w ! next) (map (\<lambda>r. store w ! r) randoms);
          s = Photo_html_page e P body
      in write_text e (dir @ ''/'' @ base P @ ''.html'') s w)"

definition Album_html_entry :: "string \<Rightarrow> photo \<Rightarrow> string \<Rightarrow> string" where
  \<open>Album_html_entry base_name P fname =
     ''\<newline>'' @
     ''                <a href="'' @ base_name @ ''.html" alt="'' @ caption P @
     ''">\<newline>'' @
     ''                <img src="'' @ fname @ ''" width='' @
     str_int (fst (thumb_size_photo P)) @ '' height='' @
     str_int (snd (thumb_size_photo P)) @ ''" title="'' @ caption P @
     ''"></a>\<newline>'' @
     ''                ''\<close>

definition Album_html_index :: "env \<Rightarrow> album \<Rightarrow> string \<Rightarrow> string" where
  \<open>Album_html_index e self body =
     ''\<newline>'' @
     ''        <HTML>\<newline>'' @
     ''            <HEAD>\<newline>'' @
     ''                <TITLE>\<newline>'' @
     ''                '' @ title self @ ''\<newline>'' @
     ''                </TITLE>\<newline>'' @
     ''                <link href="style.css" rel="stylesheet" />\<newline>'' @
     ''            </HEAD>\<newline>'' @
     ''            <BODY>\<newline>'' @
     ''            '' @ generate_links e @ ''\<newline>'' @
     ''            <H1> '' @ title self @ ''</H1>\<newline>'' @
     ''            '' @ body @ ''\<newline>'' @
     ''            </FONT>\<newline>'' @
     ''            </BODY>\<newline>'' @
     ''        </HTML>\<newline>'' @
     ''        ''\<close>

subsection \<open>Album.html\<close>

text \<open>The indices of the previous and the next photo, as the loop body computes them.\<close>

definition nav_indices :: "int \<Rightarrow> int \<Rightarrow> int \<times> int" where
  "nav_indices len i =
     (let i_prev = i - 1;
          i_prev = (if i_prev < 0 then len - 1 else i_prev);
          i_next = i + 1;
          i_next = (if i_next \<ge> len then 0 else i_next)
      in (i_prev, i_next))"

text \<open>The Photos handed to \<^verbatim>\<open>P.html\<close> as \<^verbatim>\<open>prev\<close> and \<^verbatim>\<open>next\<close>: \<^verbatim>\<open>self[i_prev]\<close> and
  \<^verbatim>\<open>self[i_next]\<close>.\<close>

definition prev_next :: "album \<Rightarrow> int \<Rightarrow> error + ref \<times> ref" where
  "prev_next self i =
     (let (i_prev, i_next) = nav_indices (Album_len self) i
      in case Album_getitem self (IntKey i_prev) of
           Inl e \<Rightarrow> Inl e
         | Inr prev \<Rightarrow> (case Album_getitem self (IntKey i_next) of
                          Inl e \<Rightarrow> Inl e
                        | Inr next \<Rightarrow> Inr (prev, next)))"

text \<open>One round of the loop over \<^verbatim>\<open>range(len(self))\<close>; it returns the index body extended by
  the entry of photo \<open>i\<close>.\<close>

definition html_step :: "env \<Rightarrow> album \<Rightarrow> string \<Rightarrow> string \<Rightarrow> int \<Rightarrow> string io" where
  "html_step e self dir body i =
     bind_io (lift_io (Album_getitem self (IntKey i))) (\<lambda>P.
     bind_io (\<lambda>w. (Inr (base (store w ! P)), w)) (\<lambda>base_name.
     bind_io (Photo_small e P (thumb_size self)) (\<lambda>fname.
     bind_io (\<lambda>w. (Inr (body @ Album_html_entry base_name (store w ! P) fname), w)) (\<lambda>body.
     bind_io (lift_io (prev_next self i)) (\<lambda>(prev, next).
       let s_photos = shuffle e (nat i) (photos self);
           random_images = take 9 (filter (\<lambda>itr. \<not> (itr = prev \<or> itr = next \<or> itr = P)) s_photos)
       in bind_io (Photo_html e P self dir prev next random_images) (\<lambda>_. return_io body))))))"

fun html_loop :: "env \<Rightarrow> album \<Rightarrow> string \<Rightarrow> string \<Rightarrow> int list \<Rightarrow> string io" where
  "html_loop e self dir body [] = return_io body"
| "html_loop e self dir body (i # is) =
     bind_io (html_step e self dir body i) (\<lambda>body. html_loop e self dir body is)"

definition Album_html :: "env \<Rightarrow> album \<Rightarrow> string \<Rightarrow> bool \<Rightarrow> unit io" where
  "Album_html e self name' delete_old_dir =
     (let dir = ''.'' @ ''/'' @ name' in
      bind_io (\<lambda>w. if os_path_exists e dir w
                    then (if \<not> delete_old_dir
                          then (Inl (IOError (''The directory '' @ squote @ dir @ squote @
                                   '' already exists.  Please delete it first.'')), w)
                          else (Inr (), w))
                    else os_mkdir e dir w) (\<lambda>_.
      bind_io (html_loop e self dir ''<DIV>'' (map int [0..<length (photos self)])) (\<lambda>body.
      write_text e (dir @ ''/index.html'') (Album_html_index e self (body @ ''</DIV>\<newline>\<newline>'')))))"

subsection \<open>Scanning a directory\<close>

fun scan_dir :: "string \<Rightarrow> string list \<Rightarrow> ref list \<Rightarrow> world \<Rightarrow> ref list \<times> world" where
  "scan_dir dir [] ps w = (ps, w)"
| "scan_dir dir (F # Fs) ps w =
     (let ext = lower (extension F)
      in if ext \<in> set PHOTO_EXTENSIONS
         then (let (P, h) = alloc (store w) (Photo_init (dir @ ''/'' @ F) F 0)
               in scan_dir dir Fs (ps @ [P]) (w\<lparr>store := h\<rparr>))
         else scan_dir dir Fs ps w)"

text \<open>The function \<^verbatim>\<open>album(dir, no_output)\<close>. It joins the working directory with the
  module-level \<^verbatim>\<open>album_path\<close>, not with its parameter, and it opens no file.\<close>

definition album :: "env \<Rightarrow> string \<Rightarrow> bool \<Rightarrow> album io" where
  "album e dir no_out w =
     (let rel_dir = dir;
          dir = os_path_join (cwd e) (album_path e)
      in if \<not> os_path_isdir e dir w
         then (Inl (IOError (''No such directory: '' @ squote @ dir @ squote)), w)
         else (let i = rfind dir CHR ''/'';
                   title = (if i \<noteq> - 1 then slice_from dir (i + 1) else dir);
                   (ps, w) = scan_dir dir (os_listdir e dir w) [] w;
                   A = Album_init (store w) ps title rel_dir None;
                   A = A\<lparr>no_output_attr := Some no_out\<rparr>;
                   A = Album_sort (store w) A
               in (Inr A, w)))"

subsection \<open>Saving and loading\<close>

text \<open>File objects. \<^verbatim>\<open>open(p, "w")\<close> and \<^verbatim>\<open>open(p)\<close> open in text mode; a text-mode file
  accepts and returns \<^verbatim>\<open>str\<close> only, a binary-mode file \<^verbatim>\<open>bytes\<close> only.\<close>

datatype file_mode = WriteText | ReadText | WriteBinary | ReadBinary

datatype py_data = Str string | Bytes "nat list"

record file_obj =
  file_name :: string
  mode :: file_mode

definition open_file :: "env \<Rightarrow> string \<Rightarrow> file_mode \<Rightarrow> file_obj io" where
  "open_file e p m =
     (case m of
        WriteText \<Rightarrow> bind_io (put_file e p (TextFile [])) (\<lambda>_. return_io \<lparr>file_name = p, mode = m\<rparr>)
      | WriteBinary \<Rightarrow> bind_io (put_file e p (BinaryFile [])) (\<lambda>_. return_io \<lparr>file_name = p, mode = m\<rparr>)
      | _ \<Rightarrow> (\<lambda>w. case lookup (files w) (resolve e p) of
                     None \<Rightarrow> (Inl (FileNotFoundError p), w)
                   | Some Dir \<Rightarrow> (Inl (IsADirectoryError p), w)
                   | Some _ \<Rightarrow> (Inr \<lparr>file_name = p, mode = m\<rparr>, w)))"

text \<open>The first write to a file just opened for writing.\<close>

definition file_write :: "env \<Rightarrow> file_obj \<Rightarrow> py_data \<Rightarrow> unit io" where
  "file_write e f d =
     (case (mode f, d) of
        (WriteText, Str s) \<Rightarrow> put_file e (file_name f) (TextFile s)
      | (WriteText, Bytes bs) \<Rightarrow> raise_io (TypeError ''write() argument must be str, not bytes'')
      | (WriteBinary, Bytes bs) \<Rightarrow> put_file e (file_name f) (BinaryFile bs)
      | (WriteBinary, Str s) \<Rightarrow> raise_io (TypeError ''a bytes-like object is required, not str'')
      | _ \<Rightarrow> raise_io (IOError ''not writable''))"

definition file_read :: "env \<Rightarrow> file_obj \<Rightarrow> py_data io" where
  "file_read e f w =
     (case mode f of
        ReadText \<Rightarrow> (case lookup (files w) (resolve e (file_name f)) of
                       Some (TextFile s) \<Rightarrow> (Inr (Str s), w)
                     | Some (BinaryFile bs) \<Rightarrow> (Inr (Str (map char_of bs)), w)
                     | _ \<Rightarrow> (Inr (Str []), w))
      | ReadBinary \<Rightarrow> (case lookup (files w) (resolve e (file_name f)) of
                       Some (TextFile s) \<Rightarrow> (Inr (Bytes (map of_char s)), w)
                     | Some (BinaryFile bs) \<Rightarrow> (Inr (Bytes bs), w)
                     | _ \<Rightarrow> (Inr (Bytes []), w))
      | _ \<Rightarrow> (Inl (IOError ''not readable''), w))"

text \<open>\<^verbatim>\<open>pickle.dump\<close> hands the pickled bytes to the file's \<^verbatim>\<open>write\<close>; \<^verbatim>\<open>pickle.load\<close> takes what
  the file's \<^verbatim>\<open>read\<close> returns and requires bytes.\<close>

definition pickle_dump :: "env \<Rightarrow> album \<Rightarrow> file_obj \<Rightarrow> unit io" where
  "pickle_dump e obj f w = file_write e f (Bytes (pickle_dumps e obj (store w))) w"

definition pickle_load :: "env \<Rightarrow> file_obj \<Rightarrow> album io" where
  "pickle_load e f =
     bind_io (file_read e f) (\<lambda>d.
       case d of
         Str s \<Rightarrow> raise_io (TypeError ''a bytes-like object is required, not str'')
       | Bytes bs \<Rightarrow> (case pickle_loads e bs of
                       None \<Rightarrow> raise_io (ValueError ''unpickling failed'')
                     | Some A \<Rightarrow> return_io A))"

definition Album_save :: "env \<Rightarrow> album \<Rightarrow> string \<Rightarrow> unit io" where
  "Album_save e self fname =
     bind_io (open_file e fname WriteText) (\<lambda>f. pickle_dump e self f)"

definition load_album :: "env \<Rightarrow> string \<Rightarrow> album io" where
  "load_album e fname =
     bind_io (open_file e fname ReadText) (\<lambda>f. pickle_load e f)"

definition save_album :: "env \<Rightarrow> album \<Rightarrow> string \<Rightarrow> unit io" where
  "save_album e A fname = Album_save e A fname"

subsection \<open>Reading a page\<close>

text \<open>The links by which a photo's page names its predecessor and its successor, given the
  base name of the linked photo.\<close>

definition link_previous :: "string \<Rightarrow> string" where
  \<open>link_previous b = ''<A href="'' @ b @ ''.html" title="Previous">''\<close>

definition link_next :: "string \<Rightarrow> string" where
  \<open>link_next b = ''<A href="'' @ b @ ''.html" title="Next">''\<close>

subsection \<open>Example data\<close>

definition example_heap :: heap where
  "example_heap = [Photo_init ''/d/B.jpg'' ''B.jpg'' 0, Photo_init ''/d/A.JPG'' ''A.JPG'' 0]"

definition example_album :: album where
  "example_album = Album_init example_heap [0, 1] ''d'' ''d'' None"

definition example_env :: env where
  "example_env = \<lparr>cwd = ''/home/u'', album_path = ''pics'', no_output = False,
     with_links = False, links = [], shuffle = (\<lambda>k ps. rev ps),
     pickle_dumps = (\<lambda>A h. []), pickle_loads = (\<lambda>bs. None)\<rparr>"

definition example_world :: world where
  "example_world =
     \<lparr>files = [([''home''], Dir), ([''home'', ''u''], Dir),
        ([''home'', ''u'', ''pics''], Dir),
        ([''home'', ''u'', ''pics'', ''a.jpg''],
           ImageFile \<lparr>size_image = (800, 400), mode_image = ''RGB''\<rparr>),
        ([''home'', ''u'', ''pics'', ''b.jpg''],
           ImageFile \<lparr>size_image = (400, 800), mode_image = ''RGB''\<rparr>),
        ([''home'', ''u'', ''pics'', ''c.jpg''],
           ImageFile \<lparr>size_image = (1000, 333), mode_image = ''RGB''\<rparr>),
        ([''home'', ''u'', ''pics'', ''notes.txt''],
           TextFile ''a.jpg: 2 [line one\<newline>line two]\<newline>b.jpg: caption text\<newline>''),
        ([''home'', ''u'', ''gallery''], Dir),
        ([''home'', ''u'', ''gallery'', ''thumbs''], Dir),
        ([''home'', ''u'', ''gallery'', ''old.html''], TextFile ''<HTML>old</HTML>'')],
      store = [Photo_init ''/home/u/pics/a.jpg'' ''a.jpg'' 0,
        Photo_init ''/home/u/pics/b.jpg'' ''b.jpg'' 0,
        Photo_init ''/home/u/pics/c.jpg'' ''c.jpg'' 0]\<rparr>"

definition example_png_world :: world where
  "example_png_world =
     \<lparr>files = [([''home''], Dir), ([''home'', ''u''], Dir),
        ([''home'', ''u'', ''pics''], Dir),
        ([''home'', ''u'', ''pics'', ''logo.png''],
           ImageFile \<lparr>size_image = (640, 480), mode_image = ''RGBA''\<rparr>),
        ([''home'', ''u'', ''gallery''], Dir)],
      store = [Photo_init ''/home/u/pics/logo.png'' ''logo.png'' 0]\<rparr>"

definition example_gallery :: album where
  "example_gallery = Album_init (store example_world) [0, 1, 2] ''pics'' ''pics'' None"

definition example_single :: album where
  "example_single = Album_init (store example_world) [0] ''pics'' ''pics'' None"

definition example_scanned :: album where
  "example_scanned =
     \<lparr>photos = [3, 4, 5], photo_dict = [(''a.jpg'', 3), (''b.jpg'', 4), (''c.jpg'', 5)],
      title = ''pics'', thumb_size = 200, rel_dir = ''pics'', no_output_attr = Some False\<rparr>"

subsection \<open>Paths that survive a statement\<close>

definition keeps_path :: "string list \<Rightarrow> 'a io \<Rightarrow> bool" where
  "keeps_path q m \<longleftrightarrow>
     (\<forall>w r w'. m w = (r, w') \<longrightarrow> lookup (files w) q \<noteq> None \<longrightarrow> lookup (files w') q \<noteq> None)"

text \<open>A statement keeps the file at a path, and the file names of the Photos (given by
  \<open>N\<close>), when it changes neither.\<close>

definition keeps_file :: "(ref \<Rightarrow> string) \<Rightarrow> string list \<Rightarrow> 'a io \<Rightarrow> bool" where
  "keeps_file N q m \<longleftrightarrow>
     (\<forall>w r w'. (\<forall>x. filename (store w ! x) = N x) \<longrightarrow> m w = (r, w') \<longrightarrow>
        (\<forall>x. filename (store w' ! x) = N x) \<and> lookup (files w') q = lookup (files w) q)"

section \<open>Properties\<close>

subsection \<open>Facts about strings\<close>

lemma contains_sublist: "contains xs ys \<longleftrightarrow> sublist xs ys"
  by (induction ys) (auto simp: sublist_Cons_right)

lemma contains_infix: "contains s (a @ s @ b)"
  by (simp add: contains_sublist)

lemma lower_char_idem: "lower_char (lower_char c) = lower_char c"
  by (auto simp: lower_char_def Let_def)

lemma lower_idem: "lower (lower s) = lower s"
  by (simp add: lower_def lower_char_idem)

text \<open>Lower-casing moves the Latin-1 capitals too and leaves \<open>\<times>\<close> (215) and \<open>\<ss>\<close> (223).\<close>

lemma lower_examples:
  "lower ''Ab.JPG'' = ''ab.jpg''"
  "lower [CHR 0xC9, CHR 0xD7, CHR 0xDE, CHR 0xDF, CHR 0xE9] = [CHR 0xE9, CHR 0xD7, CHR 0xFE, CHR 0xDF, CHR 0xE9]"
  by code_simp+

subsection \<open>Facts about the name dictionary and sorting\<close>

lemma keys_create_photo_dict:
  "fst ` set (create_photo_dict h ps) = (\<lambda>r. lower (name (h ! r))) ` set ps"
proof -
  have "fst ` set (foldl (\<lambda>d F. AList.update (lower (name (h ! F))) F d) d0 ps)
          = fst ` set d0 \<union> (\<lambda>r. lower (name (h ! r))) ` set ps" for d0
    by (induction ps arbitrary: d0) (auto simp: dom_update)
  then show ?thesis by (simp add: create_photo_dict_def)
qed

lemma create_photo_dict_None:
  "map_of (create_photo_dict h ps) k = None \<longleftrightarrow> (\<forall>r\<in>set ps. lower (name (h ! r)) \<noteq> k)"
  by (auto simp: map_of_eq_None_iff keys_create_photo_dict)

lemma map_of_create_photo_dict:
  "map_of (create_photo_dict h ps) k =
     (case filter (\<lambda>r. lower (name (h ! r)) = k) ps of [] \<Rightarrow> None | xs \<Rightarrow> Some (last xs))"
proof -
  have "map_of (foldl (\<lambda>d F. AList.update (lower (name (h ! F))) F d) d0 ps) k =
          (case filter (\<lambda>r. lower (name (h ! r)) = k) ps of [] \<Rightarrow> map_of d0 k | xs \<Rightarrow> Some (last xs))" for d0
  proof (induction ps arbitrary: d0)
    case Nil
    then show ?case by simp
  next
    case (Cons p ps)
    then show ?case by (auto simp: update_conv' split: list.splits)
  qed
  from this [of "[]"] show ?thesis by (simp add: create_photo_dict_def split: list.splits)
qed

lemma Album_sort_sorted:
  "sorted (map (\<lambda>r. filename (h ! r)) (photos (Album_sort h A)))"
  by (simp add: Album_sort_def Let_def sort_photos_def sorted_sort_key)

lemma Album_sort_same_photos:
  "mset (photos (Album_sort h A)) = mset (photos A)"
  by (simp add: Album_sort_def Let_def sort_photos_def)

lemma Album_sort_dict:
  "photo_dict (Album_sort h A) = create_photo_dict h (photos (Album_sort h A))"
  by (simp add: Album_sort_def Let_def)

lemma Album_init_dict:
  "photo_dict (Album_init h ps t rd d) = create_photo_dict h (photos (Album_init h ps t rd d))"
  by (cases d) (simp_all add: Album_init_def Let_def set_title_def PROPS_def)

subsection \<open>Photo comparisons and extensions\<close>

text \<open>
  C10. For every Photo \<open>p\<close> and every value \<open>v\<close> that is not a Photo, \<open>p < v\<close> raises nothing
  and evaluates to \<open>-1\<close>, which is truthy; when \<open>v\<close> is a Photo the comparison is the
  lexicographic order of the two file names.
\<close>

theorem Photo_lt_non_photo_truthy:
  "(\<not> isinstance_Photo v \<longrightarrow> Photo_lt h p v = PyInt (- 1) \<and> truthy (Photo_lt h p v)) \<and>
   (\<forall>q. v = PhotoObj q \<longrightarrow> Photo_lt h p v = PyBool (filename (h ! p) < filename (h ! q)))"
  by (cases v) simp_all

theorem Photo_lt_non_photo_truthy_witness:
  "\<not> isinstance_Photo (StrObj ''zzz'') \<and>
   Photo_lt [Photo_init ''a.jpg'' ''a.jpg'' 0] 0 (StrObj ''zzz'') = PyInt (- 1) \<and>
   truthy (Photo_lt [Photo_init ''a.jpg'' ''a.jpg'' 0] 0 (StrObj ''zzz'')) \<and>
   Photo_lt [Photo_init ''a.jpg'' ''a.jpg'' 0, Photo_init ''b.jpg'' ''b.jpg'' 0] 1 (PhotoObj 0) = PyBool False"
  using Photo_lt_non_photo_truthy [of "StrObj ''zzz''" "[Photo_init ''a.jpg'' ''a.jpg'' 0]" 0]
    Photo_lt_non_photo_truthy [of "PhotoObj 0" "[Photo_init ''a.jpg'' ''a.jpg'' 0, Photo_init ''b.jpg'' ''b.jpg'' 0]" 1]
  by (simp add: Photo_init_def)

text \<open>The text after the last dot, and the name without it.\<close>

lemma extension_examples:
  "extension ''a.b.jpg'' = ''jpg''" "extension ''noext'' = []"
  "base (Photo_init ''/d/a.b.jpg'' [] 0) = ''a.b''" "ext (Photo_init ''/d/a.b.JPG'' [] 0) = ''JPG''"
  by code_simp+

text \<open>
  C2. \<open>is_photo\<close> is meant to say whether the lower-cased extension is one of jpg, jpeg,
  png. As written it raises \<open>AttributeError\<close> for every Photo: \<open>self.ext\<close> is a method
  object, not the extension string.
\<close>

theorem is_photo_raises:
  "is_photo p = Inl (AttributeError ''lower'')"
  by (simp add: is_photo_def getattr_ext_def)

subsection \<open>Album lookups\<close>

text \<open>The name lookup of \<open>__getitem__\<close> lower-cases its key, so it finds a Photo under every
  upper/lower-case variant of a name in the album.\<close>

lemma Album_getitem_name_case_insensitive:
  assumes "r \<in> set (photos (Album_sort h A))" and "lower n = lower (name (h ! r))"
  shows "\<exists>r'. Album_getitem (Album_sort h A) (StrKey n) = Inr r' \<and> r' \<in> set (photos (Album_sort h A))
     \<and> lower (name (h ! r')) = lower n"
proof -
  let ?ps = "photos (Album_sort h A)"
  let ?xs = "filter (\<lambda>r. lower (name (h ! r)) = lower n) ?ps"
  from assms have ne: "?xs \<noteq> []" by (auto simp: filter_empty_conv)
  then have "map_of (photo_dict (Album_sort h A)) (lower n) = Some (last ?xs)"
    by (simp add: Album_sort_dict map_of_create_photo_dict split: list.splits)
  moreover from ne have "last ?xs \<in> set ?xs" by (rule last_in_set)
  ultimately show ?thesis by auto
qed

text \<open>
  C5. After \<open>sort\<close> the sequence is non-decreasing by file name (lemma \<open>Album_sort_sorted\<close>),
  but \<open>photo(n)\<close> is not a case-insensitive lookup: it looks \<open>n\<close> up as it is in a
  dictionary whose keys are lower-cased, so every name \<open>n\<close> with an upper-case letter
  raises \<open>KeyError\<close>, whatever the album holds.
\<close>

theorem Album_photo_not_case_insensitive:
  assumes "lower n \<noteq> n"
  shows "Album_photo (Album_sort h A) n =
           Inl (KeyError (''No photo named '' @ squote @ n @ squote @ '' in the album.''))"
proof -
  have "map_of (photo_dict (Album_sort h A)) n = None"
    using assms by (auto simp: Album_sort_dict create_photo_dict_None lower_idem)
  then show ?thesis by (simp add: Album_photo_def)
qed

theorem Album_photo_not_case_insensitive_witness:
  "1 \<in> set (photos (Album_sort example_heap example_album)) \<and>
   name (example_heap ! 1) = ''A.JPG'' \<and>
   lower ''A.JPG'' \<noteq> ''A.JPG'' \<and>
   Album_photo (Album_sort example_heap example_album) ''A.JPG'' =
     Inl (KeyError (''No photo named '' @ squote @ ''A.JPG'' @ squote @ '' in the album.'')) \<and>
   Album_getitem (Album_sort example_heap example_album) (StrKey ''A.JPG'') = Inr 1"
proof -
  have a: "lower ''A.JPG'' \<noteq> ''A.JPG''" by code_simp
  have b: "1 \<in> set (photos (Album_sort example_heap example_album))" by code_simp
  have c: "name (example_heap ! 1) = ''A.JPG''" by code_simp
  have d: "Album_getitem (Album_sort example_heap example_album) (StrKey ''A.JPG'') = Inr 1"
    by code_simp
  show ?thesis using a b c d Album_photo_not_case_insensitive [OF a] by simp
qed

text \<open>
  C8 (as amended). Names are strings of code points below 256. In an Album whose
  dictionary is the index of its sequence, an integer index outside \<open>-len \<le> i < len\<close> raises \<open>IndexError\<close> with the message
  \<open>The index must satisfy 0 <= i < len\<close>, which states the length and not the index asked
  for; a name that no Photo of the album has, compared case-insensitively, raises
  \<open>KeyError\<close> from both \<open>A[n]\<close> and \<open>A.photo(n)\<close>, with a message containing the name. In
  all these cases the Album after the statement is the Album before it: its sequence and
  its dictionary are unchanged.
\<close>

theorem Album_lookup_errors:
  assumes "photo_dict A = create_photo_dict h (photos A)"
  shows "(i < - Album_len A \<or> Album_len A \<le> i \<longrightarrow>
           getitem_stmt A (IntKey i) =
             (Inl (IndexError (''The index must satisfy 0 <= i < '' @ str_int (Album_len A))), A)) \<and>
         ((\<forall>r\<in>set (photos A). lower (name (h ! r)) \<noteq> lower n) \<longrightarrow>
           (\<exists>m. getitem_stmt A (StrKey n) = (Inl (KeyError m), A) \<and> contains n m) \<and>
           (\<exists>m. photo_stmt A n = (Inl (KeyError m), A) \<and> contains n m))"
proof (intro conjI impI)
  assume "i < - Album_len A \<or> Album_len A \<le> i"
  then have "list_getitem (photos A) i = None"
    by (auto simp: list_getitem_def Album_len_def Let_def)
  then show "getitem_stmt A (IntKey i) =
             (Inl (IndexError (''The index must satisfy 0 <= i < '' @ str_int (Album_len A))), A)"
    by (simp add: getitem_stmt_def)
next
  assume absent: "\<forall>r\<in>set (photos A). lower (name (h ! r)) \<noteq> lower n"
  then have "map_of (photo_dict A) (lower n) = None"
    by (simp add: assms create_photo_dict_None)
  then have "getitem_stmt A (StrKey n) =
      (Inl (KeyError (''No photo with name '' @ squote @ n @ squote)), A)"
    by (simp add: getitem_stmt_def)
  moreover have "contains n (''No photo with name '' @ squote @ n @ squote)"
    using contains_infix [of n "''No photo with name '' @ squote" squote] by simp
  ultimately show "\<exists>m. getitem_stmt A (StrKey n) = (Inl (KeyError m), A) \<and> contains n m"
    by blast
next
  assume absent: "\<forall>r\<in>set (photos A). lower (name (h ! r)) \<noteq> lower n"
  have "map_of (photo_dict A) n = None"
  proof (rule ccontr)
    assume "map_of (photo_dict A) n \<noteq> None"
    then obtain r where "r \<in> set (photos A)" "lower (name (h ! r)) = n"
      by (auto simp: assms create_photo_dict_None)
    then have "lower (name (h ! r)) = lower n" by (metis lower_idem)
    with absent \<open>r \<in> set (photos A)\<close> show False by blast
  qed
  then have "photo_stmt A n =
      (Inl (KeyError (''No photo named '' @ squote @ n @ squote @ '' in the album.'')), A)"
    by (simp add: Album_photo_def photo_stmt_def)
  moreover have "contains n (''No photo named '' @ squote @ n @ squote @ '' in the album.'')"
    using contains_infix [of n "''No photo named '' @ squote" "squote @ '' in the album.''"] by simp
  ultimately show "\<exists>m. photo_stmt A n = (Inl (KeyError m), A) \<and> contains n m"
    by blast
qed

theorem Album_lookup_errors_witness:
  "photo_dict example_album = create_photo_dict example_heap (photos example_album) \<and>
   photos example_album = [1, 0] \<and>
   Album_len example_album \<le> 7 \<and>
   lower (name (example_heap ! 0)) \<noteq> lower ''C.jpg'' \<and>
   lower (name (example_heap ! 1)) \<noteq> lower ''C.jpg'' \<and>
   getitem_stmt example_album (IntKey 7)
     = (Inl (IndexError ''The index must satisfy 0 <= i < 2''), example_album) \<and>
   (\<exists>m. getitem_stmt example_album (StrKey ''C.jpg'') = (Inl (KeyError m), example_album)
        \<and> contains ''C.jpg'' m) \<and>
   (\<exists>m. photo_stmt example_album ''C.jpg'' = (Inl (KeyError m), example_album)
        \<and> contains ''C.jpg'' m)"
proof -
  have a: "photo_dict example_album = create_photo_dict example_heap (photos example_album)"
    by (simp add: example_album_def Album_init_dict)
  have b: "Album_len example_album \<le> 7" by code_simp
  have p: "photos example_album = [1, 0]" by code_simp
  have c0: "lower (name (example_heap ! 0)) \<noteq> lower ''C.jpg''" by code_simp
  have c1: "lower (name (example_heap ! 1)) \<noteq> lower ''C.jpg''" by code_simp
  have d: "''The index must satisfy 0 <= i < '' @ str_int (Album_len example_album)
             = ''The index must satisfy 0 <= i < 2''"
    by code_simp
  show ?thesis using a b p c0 c1 d Album_lookup_errors [OF a, of 7 "''C.jpg''"] by simp
qed

text \<open>The message does not name the index asked for: asking an empty album for index 5
  raises an \<open>IndexError\<close> whose message does not contain \<open>5\<close>.\<close>

theorem Album_getitem_index_message_counterexample:
  "getitem_stmt (Album_init [] [] [] [] None) (IntKey 5)
     = (Inl (IndexError ''The index must satisfy 0 <= i < 0''), Album_init [] [] [] [] None) \<and>
   \<not> contains (str_int 5) ''The index must satisfy 0 <= i < 0''"
proof -
  have "Album_getitem (Album_init [] [] [] [] None) (IntKey 5)
          = Inl (IndexError ''The index must satisfy 0 <= i < 0'')"
    by code_simp
  moreover have "\<not> contains (str_int 5) ''The index must satisfy 0 <= i < 0''"
    by code_simp
  ultimately show ?thesis by (simp add: getitem_stmt_def)
qed

subsection \<open>Combining albums\<close>

text \<open>
  C3. \<open>A + B\<close> is meant to return a new Album with the concatenated photos and the
  composed title. As written it raises \<open>AttributeError\<close> for every pair of Albums: it
  reads \<open>other.rel_path\<close>, and an Album has \<open>rel_dir\<close> but no \<open>rel_path\<close>.
\<close>

theorem Album_add_raises:
  "Album_add h A (AlbumObj B) = Inl (AttributeError ''rel_path'')"
  by (simp add: getattr_rel_path_def)

subsection \<open>Facts about paths\<close>

lemma split_on_not_Nil: "split_on c s \<noteq> []"
  by (induction s) (auto split: list.splits)

lemma split_on_no_sep: "c \<notin> set x \<Longrightarrow> split_on c x = [x]"
  by (induction x) auto

lemma split_on_snoc: "c \<notin> set x \<Longrightarrow> split_on c (d @ c # x) = split_on c d @ [x]"
proof (induction d)
  case Nil
  then show ?case by (simp add: split_on_no_sep)
next
  case (Cons a d)
  then show ?case
    using split_on_not_Nil [of c d] by (auto split: list.splits)
qed

lemma walk_append: "walk cur (xs @ ys) = walk (walk cur xs) ys"
  by (induction xs arbitrary: cur) auto

lemma resolve_child:
  assumes "d \<noteq> []" and "CHR ''/'' \<notin> set x" and "x \<noteq> []" and "x \<noteq> ''.''" and "x \<noteq> ''..''"
  shows "resolve e (d @ ''/'' @ x) = resolve e d @ [x]"
proof -
  have sp: "split_on CHR ''/'' (d @ ''/'' @ x) = split_on CHR ''/'' d @ [x]"
    using split_on_snoc [OF assms(2), of d] by simp
  have w1: "walk cur [x] = cur @ [x]" for cur using assms(3-5) by simp
  have hd: "hd (d @ ''/'' @ x) = hd d" using assms(1) by simp
  show ?thesis
    unfolding resolve_def sp walk_append w1 hd using assms(1) by simp
qed

lemma rfind_range: "- 1 \<le> rfind s c \<and> rfind s c < int (length s)"
  by (induction s) (auto simp: Let_def)

lemma tail_no_sep: "c \<notin> set (drop (nat (rfind s c + 1)) s)"
proof (induction s)
  case Nil
  then show ?case by simp
next
  case (Cons x xs)
  have r: "- 1 \<le> rfind xs c" using rfind_range by blast
  show ?case
  proof (cases "rfind xs c = - 1")
    case True
    with Cons show ?thesis by (auto simp: Let_def)
  next
    case False
    with r have "0 \<le> rfind xs c" by arith
    then have "nat (rfind xs c + 1 + 1) = Suc (nat (rfind xs c + 1))" by arith
    with Cons False show ?thesis by (simp add: Let_def)
  qed
qed

lemma name_no_slash: "CHR ''/'' \<notin> set (name p)"
  by (simp add: name_def os_path_split_def Let_def slice_from_def tail_no_sep)

lemma base_no_slash: "CHR ''/'' \<notin> set (base p)"
  using name_no_slash [of p] by (auto simp: base_def Let_def slice_to_def dest: in_set_takeD)

lemma resolve_thumbs_dir: "resolve e ''gallery/thumbs'' = resolve e ''gallery'' @ [''thumbs'']"
  using resolve_child [of "''gallery''" "''thumbs''" e] by simp

lemma resolve_thumb_file:
  "resolve e (''gallery/thumbs'' @ ''/'' @ base p @ ''-thumb.jpg'')
     = resolve e ''gallery/thumbs'' @ [base p @ ''-thumb.jpg'']"
proof -
  have "base p @ ''-thumb.jpg'' \<noteq> [] \<and> base p @ ''-thumb.jpg'' \<noteq> ''.'' \<and> base p @ ''-thumb.jpg'' \<noteq> ''..''"
    by (cases "base p") auto
  then show ?thesis
    using resolve_child [of "''gallery/thumbs''" "base p @ ''-thumb.jpg''" e] base_no_slash [of p]
    by simp
qed

lemma resolve_page_file:
  assumes "dir \<noteq> []"
  shows "resolve e (dir @ ''/'' @ base p @ ''.html'') = resolve e dir @ [base p @ ''.html'']"
proof -
  have "base p @ ''.html'' \<noteq> [] \<and> base p @ ''.html'' \<noteq> ''.'' \<and> base p @ ''.html'' \<noteq> ''..''"
    by (cases "base p") auto
  then show ?thesis
    using resolve_child [OF assms, of "base p @ ''.html''" e] base_no_slash [of p]
    by simp
qed

lemma lookup_append_new:
  "lookup (f @ [(q0, n)]) q =
     (case lookup f q of Some v \<Rightarrow> Some v | None \<Rightarrow> (if q = q0 then Some n else None))"
  by (auto simp: lookup_def map_add_def split: option.splits)

lemma lookup_delete:
  "lookup (AList.delete q0 f) q = (if q = q0 \<and> q \<noteq> [] then None else lookup f q)"
  by (auto simp: lookup_def delete_conv')

lemma lookup_update:
  "lookup (AList.update q0 n f) q = (if q = q0 \<and> q \<noteq> [] then Some n else lookup f q)"
  by (auto simp: lookup_def update_conv')

subsection \<open>Thumbnails\<close>

lemma thumb_dims_pos:
  "0 < iw \<Longrightarrow> 0 < ih \<Longrightarrow> 0 \<le> t \<Longrightarrow>
   thumb_dims t (iw, ih) = Inr (if ih < iw then (t, t * ih div iw) else (t * iw div ih, t))"
  by (simp add: thumb_dims_def py_truediv_def py_int_def floor_divide_of_int_eq
      flip: of_int_mult)

text \<open>The first two statements of \<open>small\<close> leave a thumbnails directory behind whenever the
  directory \<open>gallery\<close> exists, and touch no other path.\<close>

lemma thumbs_dir_ready:
  assumes "os_path_isdir e ''gallery'' w"
  shows "\<exists>wa. (\<forall>k. (bind_io (\<lambda>w. if os_path_exists e ''gallery/thumbs'' w \<and> \<not> os_path_isdir e ''gallery/thumbs'' w
                    then os_remove e ''gallery/thumbs'' w else (Inr (), w)) (\<lambda>_.
              bind_io (\<lambda>w. if \<not> os_path_exists e ''gallery/thumbs'' w
                    then os_mkdir e ''gallery/thumbs'' w else (Inr (), w)) (\<lambda>_. k))) w = k wa)
           \<and> store wa = store w
           \<and> lookup (files wa) (resolve e ''gallery/thumbs'') = Some Dir
           \<and> (\<forall>q. q \<noteq> resolve e ''gallery/thumbs'' \<longrightarrow> lookup (files wa) q = lookup (files w) q)"
proof -
  let ?q0 = "resolve e ''gallery/thumbs''"
  have q0: "?q0 \<noteq> []" "butlast ?q0 = resolve e ''gallery''" "resolve e ''gallery'' \<noteq> ?q0"
    by (simp_all add: resolve_thumbs_dir)
  from assms have par: "lookup (files w) (resolve e ''gallery'') = Some Dir"
    by (simp add: os_path_isdir_def)
  consider (isdir) "lookup (files w) ?q0 = Some Dir"
    | (absent) "lookup (files w) ?q0 = None"
    | (plain) n where "lookup (files w) ?q0 = Some n" "n \<noteq> Dir"
    by (cases "lookup (files w) ?q0") auto
  then show ?thesis
  proof cases
    case isdir
    from isdir show ?thesis
      by (intro exI [of _ w]) (simp add: bind_io_def os_path_exists_def os_path_isdir_def)
  next
    case absent
    let ?wa = "w\<lparr>files := files w @ [(?q0, Dir)]\<rparr>"
    have mk: "os_mkdir e ''gallery/thumbs'' w = (Inr (), ?wa)"
      using absent par q0 by (simp add: os_mkdir_def Let_def)
    have "lookup (files ?wa) ?q0 = Some Dir"
      using absent q0 by (simp add: lookup_append_new)
    moreover have "\<forall>q. q \<noteq> ?q0 \<longrightarrow> lookup (files ?wa) q = lookup (files w) q"
      by (auto simp: lookup_append_new split: option.splits)
    ultimately show ?thesis
      using absent mk
      by (intro exI [of _ ?wa]) (simp add: bind_io_def os_path_exists_def os_path_isdir_def)
  next
    case plain
    let ?w1 = "w\<lparr>files := AList.delete ?q0 (files w)\<rparr>"
    let ?wa = "?w1\<lparr>files := files ?w1 @ [(?q0, Dir)]\<rparr>"
    have rm: "os_remove e ''gallery/thumbs'' w = (Inr (), ?w1)"
      using plain by (cases n) (simp_all add: os_remove_def Let_def)
    have gone: "lookup (files ?w1) ?q0 = None"
      using q0 by (simp add: lookup_delete)
    have par1: "lookup (files ?w1) (butlast ?q0) = Some Dir"
      using par q0 by (simp add: lookup_delete)
    have mk: "os_mkdir e ''gallery/thumbs'' ?w1 = (Inr (), ?wa)"
      using gone par1 by (simp add: os_mkdir_def Let_def)
    have "lookup (files ?wa) ?q0 = Some Dir"
      using q0 by (simp add: lookup_append_new lookup_delete)
    moreover have "\<forall>q. q \<noteq> ?q0 \<longrightarrow> lookup (files ?wa) q = lookup (files w) q"
      by (auto simp: lookup_append_new lookup_delete split: option.splits)
    ultimately show ?thesis
      using plain rm mk gone
      by (intro exI [of _ ?wa]) (simp add: bind_io_def os_path_exists_def os_path_isdir_def)
  qed
qed

text \<open>
  C4 (as amended). When the directory \<open>gallery\<close> exists, the Photo's file is an image of
  width \<open>iw\<close> and height \<open>ih\<close> (both positive, and small enough for the quotient of doubles to
  truncate as the exact one) in a mode that a JPEG file can hold, it is not a file in the
  place of the thumbnails directory, the target \<open>t\<close> is between 1 and 65500 pixels, the
  scaled shorter edge is at least one pixel and no directory is in the place of the
  thumbnail file, \<open>small(t)\<close> returns and records the source size and a thumbnail size whose
  longer edge is \<open>t\<close> and whose shorter edge is \<open>t * shorter / longer\<close> truncated to an integer
  (not rounded to the nearest).
\<close>

theorem Photo_small_thumb_size:
  assumes ref: "self < length (store w)"
    and gallery: "os_path_isdir e ''gallery'' w"
    and img: "lookup (files w) (resolve e (os_path_join (path (store w ! self)) (name (store w ! self))))
                = Some (ImageFile im)"
    and apart: "resolve e (os_path_join (path (store w ! self)) (name (store w ! self)))
                  \<noteq> resolve e ''gallery/thumbs''"
    and im: "size_image im = (iw, ih)" "mode_image im \<in> set JPEG_MODES"
    and pos: "0 < iw" "0 < ih" "1 \<le> t" "t \<le> 65500"
    and exact: "t * (iw + ih) \<le> 2 ^ 52"
    and big: "(if ih < iw then iw \<le> t * ih else ih \<le> t * iw)"
    and nodir: "lookup (files w) (resolve e (''gallery/thumbs'' @ ''/'' @ base (store w ! self) @ ''-thumb.jpg''))
                  \<noteq> Some Dir"
  shows "\<exists>f w'. Photo_small e self t w = (Inr f, w') \<and>
           size_photo (store w' ! self) = (iw, ih) \<and>
           thumb_size_photo (store w' ! self) =
             (if ih < iw then (t, t * ih div iw) else (t * iw div ih, t))"
proof -
  let ?P = "store w ! self"
  let ?dir = "''gallery/thumbs''"
  let ?q0 = "resolve e ?dir"
  let ?file = "?dir @ ''/'' @ base ?P @ ''-thumb.jpg''"
  let ?src = "os_path_join (path ?P) (name ?P)"
  let ?dims = "if ih < iw then (t, t * ih div iw) else (t * iw div ih, t)"
  let ?rest = "\<lambda>w. let P = store w ! self;
                file = ?dir @ ''/'' @ base P @ ''-thumb.jpg''
            in bind_io (Image_open e (os_path_join (path P) (name P))) (\<lambda>im.
               bind_io (set_size self (size_image im)) (\<lambda>_.
               bind_io (lift_io (thumb_dims t (size_image im))) (\<lambda>dims.
               bind_io (lift_io (Image_resize im dims)) (\<lambda>thumb.
               bind_io (Image_save_jpeg e thumb file) (\<lambda>_.
               bind_io (set_thumb_size self dims) (\<lambda>_.
               return_io (replace_str file ''gallery/'' []))))))) w"
  from thumbs_dir_ready [OF gallery] obtain wa where
    first: "\<forall>k :: string io. (bind_io (\<lambda>w. if os_path_exists e ''gallery/thumbs'' w \<and> \<not> os_path_isdir e ''gallery/thumbs'' w
                    then os_remove e ''gallery/thumbs'' w else (Inr (), w)) (\<lambda>_.
              bind_io (\<lambda>w. if \<not> os_path_exists e ''gallery/thumbs'' w
                    then os_mkdir e ''gallery/thumbs'' w else (Inr (), w)) (\<lambda>_. k))) w = k wa"
    and st: "store wa = store w"
    and td: "lookup (files wa) ?q0 = Some Dir"
    and fr: "\<forall>q. q \<noteq> ?q0 \<longrightarrow> lookup (files wa) q = lookup (files w) q"
    by (elim exE conjE)
  have run0: "Photo_small e self t w = ?rest wa"
    unfolding Photo_small_def Let_def by (rule first [rule_format])
  let ?w1 = "wa\<lparr>store := (store wa)[self := ?P\<lparr>size_photo := (iw, ih)\<rparr>]\<rparr>"
  let ?thumb = "im\<lparr>size_image := ?dims\<rparr>"
  let ?w2 = "?w1\<lparr>files := AList.update (resolve e ?file) (ImageFile ?thumb) (files wa)\<rparr>"
  let ?w3 = "?w2\<lparr>store := (store ?w2)[self := (store ?w2 ! self)\<lparr>thumb_size_photo := ?dims\<rparr>]\<rparr>"
  have fpath: "resolve e ?file = ?q0 @ [base ?P @ ''-thumb.jpg'']"
    by (rule resolve_thumb_file)
  have dims: "thumb_dims t (iw, ih) = Inr ?dims"
    using pos by (simp add: thumb_dims_pos)
  have d1: "1 \<le> fst ?dims \<and> 1 \<le> snd ?dims"
  proof (cases "ih < iw")
    case True
    with big have "iw \<le> t * ih" by simp
    then have "1 \<le> t * ih div iw" using pos
      by (metis div_self less_irrefl zdiv_mono1)
    with True pos show ?thesis by simp
  next
    case False
    with big have "ih \<le> t * iw" by simp
    then have "1 \<le> t * iw div ih" using pos
      by (metis div_self less_irrefl zdiv_mono1)
    with False pos show ?thesis by simp
  qed
  have d2: "fst ?dims \<le> 65500 \<and> snd ?dims \<le> 65500"
  proof (cases "ih < iw")
    case True
    have "t * ih div iw \<le> t * iw div iw"
      using True pos by (intro zdiv_mono1 mult_left_mono) simp_all
    with True pos show ?thesis by simp
  next
    case False
    have "t * iw div ih \<le> t * ih div ih"
      using False pos by (intro zdiv_mono1 mult_left_mono) simp_all
    with False pos show ?thesis by simp
  qed
  have io: "Image_open e ?src wa = (Inr im, wa)"
    using img apart fr by (simp add: Image_open_def)
  have rz: "Image_resize im ?dims = Inr ?thumb"
    using d1 by (simp add: Image_resize_def)
  have nd: "lookup (files wa) (resolve e ?file) \<noteq> Some Dir"
    using nodir fr fpath by simp
  have par: "lookup (files wa) (butlast (resolve e ?file)) = Some Dir"
    using td fpath by simp
  have put: "put_file e ?file (ImageFile ?thumb) ?w1 = (Inr (), ?w2)"
    using nd par
    by (auto simp: put_file_def Let_def split: option.splits node.splits)
  have sv: "Image_save_jpeg e ?thumb ?file ?w1 = (Inr (), ?w2)"
    using d2 im(2) put by (simp add: Image_save_jpeg_def)
  have run: "?rest wa = (Inr (replace_str ?file ''gallery/'' []), ?w3)"
    using io dims rz sv im(1) st
    by (simp add: Let_def bind_io_def return_io_def lift_io_def set_size_def set_thumb_size_def)
  from run0 run have "Photo_small e self t w = (Inr (replace_str ?file ''gallery/'' []), ?w3)"
    by (simp only:)
  moreover have "size_photo (store ?w3 ! self) = (iw, ih)" using ref st by simp
  moreover have "thumb_size_photo (store ?w3 ! self) = ?dims" using ref st by simp
  ultimately show ?thesis by blast
qed

theorem Photo_small_thumb_size_witness:
  "(1::nat) < length (store example_world) \<and> os_path_isdir example_env ''gallery'' example_world \<and>
   lookup (files example_world) (resolve example_env ''/home/u/pics/a.jpg'')
     = Some (ImageFile \<lparr>size_image = (800, 400), mode_image = ''RGB''\<rparr>) \<and>
   ''RGB'' \<in> set JPEG_MODES \<and>
   size_photo (store (snd (Photo_small example_env 0 200 example_world)) ! 0) = (800, 400) \<and>
   thumb_size_photo (store (snd (Photo_small example_env 0 200 example_world)) ! 0) = (200, 100) \<and>
   size_photo (store (snd (Photo_small example_env 1 200 example_world)) ! 1) = (400, 800) \<and>
   thumb_size_photo (store (snd (Photo_small example_env 1 200 example_world)) ! 1) = (100, 200)"
proof -
  let ?a = "\<lparr>size_image = (800, 400), mode_image = ''RGB''\<rparr>"
  let ?b = "\<lparr>size_image = (400, 800), mode_image = ''RGB''\<rparr>"
  have r0: "0 < length (store example_world)" by code_simp
  have r1: "1 < length (store example_world)" by code_simp
  have g: "os_path_isdir example_env ''gallery'' example_world" by code_simp
  have i0: "lookup (files example_world) (resolve example_env
      (os_path_join (path (store example_world ! 0)) (name (store example_world ! 0))))
        = Some (ImageFile ?a)" by code_simp
  have i1: "lookup (files example_world) (resolve example_env
      (os_path_join (path (store example_world ! 1)) (name (store example_world ! 1))))
        = Some (ImageFile ?b)" by code_simp
  have a0: "resolve example_env
      (os_path_join (path (store example_world ! 0)) (name (store example_world ! 0)))
        \<noteq> resolve example_env ''gallery/thumbs''" by code_simp
  have a1: "resolve example_env
      (os_path_join (path (store example_world ! 1)) (name (store example_world ! 1)))
        \<noteq> resolve example_env ''gallery/thumbs''" by code_simp
  have m: "''RGB'' \<in> set JPEG_MODES" by code_simp
  have n0: "lookup (files example_world) (resolve example_env
      (''gallery/thumbs'' @ ''/'' @ base (store example_world ! 0) @ ''-thumb.jpg'')) \<noteq> Some Dir"
    by code_simp
  have n1: "lookup (files example_world) (resolve example_env
      (''gallery/thumbs'' @ ''/'' @ base (store example_world ! 1) @ ''-thumb.jpg'')) \<noteq> Some Dir"
    by code_simp
  have p: "lookup (files example_world) (resolve example_env ''/home/u/pics/a.jpg'') = Some (ImageFile ?a)"
    by code_simp
  from Photo_small_thumb_size [OF r0 g i0 a0, of 800 400 200, OF _ _ _ _ _ _ _ _ n0] m
  have a: "size_photo (store (snd (Photo_small example_env 0 200 example_world)) ! 0) = (800, 400) \<and>
   thumb_size_photo (store (snd (Photo_small example_env 0 200 example_world)) ! 0) = (200, 100)"
    by auto
  from Photo_small_thumb_size [OF r1 g i1 a1, of 400 800 200, OF _ _ _ _ _ _ _ _ n1] m
  have b: "size_photo (store (snd (Photo_small example_env 1 200 example_world)) ! 1) = (400, 800) \<and>
   thumb_size_photo (store (snd (Photo_small example_env 1 200 example_world)) ! 1) = (100, 200)"
    by auto
  show ?thesis using r1 g p m a b by simp
qed

text \<open>Rounding to the nearest integer would give another size: a 1000 by 333 image with
  target 200 gets the thumbnail height 66, while 200 * 333 / 1000 = 66.6 rounds to 67.\<close>

theorem Photo_small_round_counterexample:
  "thumb_size_photo (store (snd (Photo_small example_env 2 200 example_world)) ! 2)
     \<noteq> (200, round (real_of_int (200 * 333) / real_of_int 1000))"
proof -
  have "thumb_size_photo (store (snd (Photo_small example_env 2 200 example_world)) ! 2) = (200, 66)"
    by code_simp
  moreover have "round (real_of_int (200 * 333) / real_of_int 1000) = (67::int)"
    by (simp add: round_def)
  ultimately show ?thesis by simp
qed

text \<open>An image in a mode that a JPEG file cannot hold, or a target above 65500: the save
  raises and no thumbnail size is recorded.\<close>

lemma Photo_small_unsaved_examples:
  "fst (Photo_small example_env 0 200 example_png_world) = Inl (IOError ''cannot write mode RGBA as JPEG'')"
  "thumb_size_photo (store (snd (Photo_small example_env 0 200 example_png_world)) ! 0) = (0, 0)"
  "fst (Photo_small example_env 0 66000 example_world)
     = Inl (IOError ''encoder error -2 when writing image file'')"
  "thumb_size_photo (store (snd (Photo_small example_env 0 66000 example_world)) ! 0) = (0, 0)"
  by code_simp+

subsection \<open>Saving and loading an album\<close>

text \<open>
  C6. \<open>save\<close> followed by \<open>load_album\<close> is meant to give the album back. As written,
  both open the file in text mode, where \<open>pickle\<close> can neither write nor read its bytes:
  \<open>save\<close> raises for every album, file name and state of the file system (leaving an empty
  file behind when the file could be opened), and so does \<open>load_album\<close>.
\<close>

theorem save_and_load_raise:
  "(\<exists>err w'. Album_save e A f w = (Inl err, w')) \<and> (\<exists>err w'. load_album e f w = (Inl err, w'))"
proof
  show "\<exists>err w'. Album_save e A f w = (Inl err, w')"
    unfolding Album_save_def open_file_def
    by (cases "put_file e f (TextFile []) w")
      (auto simp: bind_io_def return_io_def raise_io_def pickle_dump_def file_write_def
        split: sum.splits)
next
  show "\<exists>err w'. load_album e f w = (Inl err, w')"
    unfolding load_album_def open_file_def pickle_load_def file_read_def
    by (auto simp: bind_io_def return_io_def raise_io_def
        split: sum.splits option.splits node.splits)
qed

subsection \<open>Rendering into an existing directory\<close>

text \<open>Without the permission to delete, an existing output directory makes \<open>html\<close> raise
  before anything is written: the world is returned as it was.\<close>

lemma Album_html_refuses_existing:
  assumes "os_path_exists e (''./'' @ n) w"
  shows "Album_html e A n False w =
    (Inl (IOError (''The directory '' @ squote @ ''./'' @ n @ squote @
                                   '' already exists.  Please delete it first.'')), w)"
  using assms by (simp add: Album_html_def bind_io_def Let_def)

text \<open>With the permission, nothing is deleted either. Every statement of \<open>html\<close> keeps
  every path of the file system, except that \<open>small\<close> replaces a plain file that is in the
  place of the thumbnails directory.\<close>

lemma keeps_pathI:
  "(\<And>w r w'. m w = (r, w') \<Longrightarrow> lookup (files w) q \<noteq> None \<Longrightarrow> lookup (files w') q \<noteq> None)
     \<Longrightarrow> keeps_path q m"
  by (simp add: keeps_path_def)

lemma keeps_pathD:
  "keeps_path q m \<Longrightarrow> m w = (r, w') \<Longrightarrow> lookup (files w) q \<noteq> None \<Longrightarrow> lookup (files w') q \<noteq> None"
  by (simp add: keeps_path_def)

lemma keeps_bind:
  assumes "keeps_path q m" and "\<And>x. keeps_path q (f x)"
  shows "keeps_path q (bind_io m f)"
proof (rule keeps_pathI)
  fix w r w'
  assume run: "bind_io m f w = (r, w')" and ex: "lookup (files w) q \<noteq> None"
  obtain r1 w1 where m: "m w = (r1, w1)" by (cases "m w")
  from keeps_pathD [OF assms(1) m ex] have ex1: "lookup (files w1) q \<noteq> None" .
  show "lookup (files w') q \<noteq> None"
  proof (cases r1)
    case (Inl err)
    with run m have "w' = w1" by (simp add: bind_io_def)
    with ex1 show ?thesis by simp
  next
    case (Inr x)
    with run m have "f x w1 = (r, w')" by (simp add: bind_io_def)
    from keeps_pathD [OF assms(2) this ex1] show ?thesis .
  qed
qed

lemma keeps_return: "keeps_path q (return_io x)"
  by (simp add: keeps_path_def return_io_def)

lemma keeps_raise: "keeps_path q (raise_io x)"
  by (simp add: keeps_path_def raise_io_def)

lemma keeps_lift: "keeps_path q (lift_io x)"
  by (simp add: keeps_path_def lift_io_def)

lemma keeps_pure: "keeps_path q (\<lambda>w. (g w, w))"
  by (simp add: keeps_path_def)

lemma keeps_put_file: "keeps_path q (put_file e p n)"
  by (auto simp: keeps_path_def put_file_def Let_def lookup_def update_conv'
      split: option.splits node.splits if_splits)

lemma keeps_os_mkdir: "keeps_path q (os_mkdir e p)"
  by (auto simp: keeps_path_def os_mkdir_def Let_def lookup_def
      split: option.splits node.splits if_splits)

lemma keeps_os_remove: "q \<noteq> resolve e p \<Longrightarrow> keeps_path q (os_remove e p)"
  by (auto simp: keeps_path_def os_remove_def Let_def lookup_def delete_conv'
      split: option.splits node.splits if_splits)

lemma keeps_set_size: "keeps_path q (set_size r sz)"
  by (simp add: keeps_path_def set_size_def)

lemma keeps_set_thumb_size: "keeps_path q (set_thumb_size r sz)"
  by (simp add: keeps_path_def set_thumb_size_def)

lemma keeps_Image_open: "keeps_path q (Image_open e p)"
  by (auto simp: keeps_path_def Image_open_def split: option.splits node.splits)

lemma keeps_Image_save_jpeg: "keeps_path q (Image_save_jpeg e im f)"
  by (simp add: Image_save_jpeg_def keeps_raise keeps_put_file)

lemma keeps_state_dep:
  assumes "\<And>w0. keeps_path q (f w0)"
  shows "keeps_path q (\<lambda>w. f w w)"
  using assms by (simp add: keeps_path_def)

lemma keeps_if:
  "keeps_path q a \<Longrightarrow> keeps_path q b \<Longrightarrow> keeps_path q (\<lambda>w. if c w then a w else b w)"
  by (simp add: keeps_path_def)

lemma keeps_Photo_small:
  assumes "q \<noteq> resolve e ''gallery/thumbs''"
  shows "keeps_path q (Photo_small e self t)"
proof -
  let ?rest = "\<lambda>p fl. bind_io (Image_open e p) (\<lambda>im.
               bind_io (set_size self (size_image im)) (\<lambda>_.
               bind_io (lift_io (thumb_dims t (size_image im))) (\<lambda>dims.
               bind_io (lift_io (Image_resize im dims)) (\<lambda>thumb.
               bind_io (Image_save_jpeg e thumb fl) (\<lambda>_.
               bind_io (set_thumb_size self dims) (\<lambda>_.
               return_io (replace_str fl ''gallery/'' [])))))))"
  have inner: "keeps_path q (?rest p fl)" for p fl
    by (intro keeps_bind keeps_Image_open keeps_set_size keeps_lift keeps_Image_save_jpeg
        keeps_set_thumb_size keeps_return)
  have third: "keeps_path q (\<lambda>w. ?rest (P w) (F w) w)" for P F
  proof (rule keeps_pathI)
    fix w r w'
    assume "?rest (P w) (F w) w = (r, w')" and "lookup (files w) q \<noteq> None"
    with keeps_pathD [OF inner] show "lookup (files w') q \<noteq> None" by blast
  qed
  have rm: "keeps_path q (\<lambda>w. if os_path_exists e ''gallery/thumbs'' w \<and> \<not> os_path_isdir e ''gallery/thumbs'' w
                    then os_remove e ''gallery/thumbs'' w else (Inr (), w))"
    using keeps_os_remove [OF assms] by (auto simp: keeps_path_def)
  have mk: "keeps_path q (\<lambda>w. if \<not> os_path_exists e ''gallery/thumbs'' w
                    then os_mkdir e ''gallery/thumbs'' w else (Inr (), w))"
    using keeps_os_mkdir [of q e "''gallery/thumbs''"] by (auto simp: keeps_path_def)
  show ?thesis
    unfolding Photo_small_def Let_def
    by (intro keeps_bind rm mk third)
qed

lemma keeps_Photo_html: "keeps_path q (Photo_html e self A dir prev nxt rnd)"
proof -
  have "keeps_path q (\<lambda>w. write_text e (f w) (g w) w)" for f g
    using keeps_put_file [of q e] by (simp add: keeps_path_def write_text_def)
  then show ?thesis unfolding Photo_html_def Let_def .
qed

lemma keeps_html_step:
  assumes "q \<noteq> resolve e ''gallery/thumbs''"
  shows "keeps_path q (html_step e A dir body i)"
  unfolding html_step_def Let_def
  apply (intro keeps_bind keeps_lift keeps_pure keeps_Photo_small [OF assms])
  apply (simp add: split_def)
  apply (intro keeps_bind keeps_Photo_html keeps_return)
  done

lemma keeps_html_loop:
  assumes "q \<noteq> resolve e ''gallery/thumbs''"
  shows "keeps_path q (html_loop e A dir body is)"
  by (induction "is" arbitrary: body) (auto intro!: keeps_bind keeps_return keeps_html_step [OF assms])

lemma keeps_Album_html:
  assumes "q \<noteq> resolve e ''gallery/thumbs''"
  shows "keeps_path q (Album_html e A n d)"
proof -
  have w: "keeps_path q (write_text e p s)" for p s
    by (simp add: write_text_def keeps_put_file)
  have first: "keeps_path q (\<lambda>w. if os_path_exists e dir w
                    then (if \<not> d
                          then (Inl (IOError (msg dir)), w)
                          else (Inr (), w))
                    else os_mkdir e dir w)" for dir msg
    using keeps_os_mkdir [of q e dir] by (auto simp: keeps_path_def)
  show ?thesis
    unfolding Album_html_def Let_def
    by (intro keeps_bind first w keeps_html_loop [OF assms])
qed

text \<open>
  C7. Without the permission to delete, \<open>html\<close> raises at an existing output directory
  and writes nothing (lemma \<open>Album_html_refuses_existing\<close>). With the permission it is
  meant to delete and recreate the directory. As written it deletes nothing: whatever
  the flag, every path that exists before the call exists after it (the place of the
  thumbnails directory apart), so the old files of the directory stay among the new ones.
\<close>

theorem Album_html_never_deletes:
  assumes "q \<noteq> resolve e ''gallery/thumbs''"
    and "lookup (files w) q \<noteq> None"
    and "Album_html e A n d w = (r, w')"
  shows "lookup (files w') q \<noteq> None"
  using keeps_pathD [OF keeps_Album_html [OF assms(1)] assms(3) assms(2)] .


text \<open>A run on an output directory that holds an old page: the call returns, and the
  directory then holds the old page beside the page of the one photo and the index.\<close>

lemma Album_html_example_run:
  "(case Album_html example_env example_single ''gallery'' True example_world of
     (r, w') \<Rightarrow> r = Inr () \<and>
       os_listdir example_env ''./gallery'' w' = [''thumbs'', ''old.html'', ''a.html'', ''index.html''])"
  by code_simp

theorem Album_html_never_deletes_witness:
  "[''home'', ''u'', ''gallery'', ''old.html''] \<noteq> resolve example_env ''gallery/thumbs'' \<and>
   os_path_exists example_env ''./gallery'' example_world \<and>
   lookup (files example_world) [''home'', ''u'', ''gallery'', ''old.html'']
     = Some (TextFile ''<HTML>old</HTML>'') \<and>
   length (photos example_single) = 1 \<and>
   fst (Album_html example_env example_single ''gallery'' True example_world) = Inr () \<and>
   lookup (files (snd (Album_html example_env example_single ''gallery'' True example_world)))
       [''home'', ''u'', ''gallery'', ''old.html''] \<noteq> None \<and>
   os_listdir example_env ''./gallery''
       (snd (Album_html example_env example_single ''gallery'' True example_world))
     = [''thumbs'', ''old.html'', ''a.html'', ''index.html'']"
proof -
  let ?q = "[''home'', ''u'', ''gallery'', ''old.html'']"
  let ?run = "Album_html example_env example_single ''gallery'' True example_world"
  have a: "?q \<noteq> resolve example_env ''gallery/thumbs''" by code_simp
  have b: "os_path_exists example_env ''./gallery'' example_world" by code_simp
  have c: "lookup (files example_world) ?q = Some (TextFile ''<HTML>old</HTML>'')" by code_simp
  then have c': "lookup (files example_world) ?q \<noteq> None" by simp
  have d: "length (photos example_single) = 1" by code_simp
  have run: "?run = (fst ?run, snd ?run)" by simp
  from Album_html_example_run
  have e: "fst ?run = Inr ()"
    and f: "os_listdir example_env ''./gallery'' (snd ?run) = [''thumbs'', ''old.html'', ''a.html'', ''index.html'']"
    by (simp_all add: split_def)
  show ?thesis
    using a b c d e f Album_html_never_deletes [OF a c' run] by simp
qed

subsection \<open>Statements that keep a file and the file names\<close>

lemma keeps_fileI:
  assumes "\<And>w r w'. (\<forall>x. filename (store w ! x) = N x) \<Longrightarrow> m w = (r, w') \<Longrightarrow>
        (\<forall>x. filename (store w' ! x) = N x) \<and> lookup (files w') q = lookup (files w) q"
  shows "keeps_file N q m"
  using assms unfolding keeps_file_def by blast

lemma keeps_fileD:
  assumes "keeps_file N q m" and "\<forall>x. filename (store w ! x) = N x" and "m w = (r, w')"
  shows "\<forall>x. filename (store w' ! x) = N x" and "lookup (files w') q = lookup (files w) q"
  using assms unfolding keeps_file_def by blast+

lemma kf_bind:
  assumes "keeps_file N q m" and "\<And>x. keeps_file N q (f x)"
  shows "keeps_file N q (bind_io m f)"
proof (rule keeps_fileI)
  fix w r w'
  assume names: "\<forall>x. filename (store w ! x) = N x" and run: "bind_io m f w = (r, w')"
  obtain r1 w1 where m: "m w = (r1, w1)" by (cases "m w")
  note k1 = keeps_fileD [OF assms(1) names m]
  show "(\<forall>x. filename (store w' ! x) = N x) \<and> lookup (files w') q = lookup (files w) q"
  proof (cases r1)
    case (Inl err)
    with run m have "w' = w1" by (simp add: bind_io_def)
    with k1 show ?thesis by simp
  next
    case (Inr x)
    with run m have "f x w1 = (r, w')" by (simp add: bind_io_def)
    from keeps_fileD [OF assms(2) k1(1) this] k1(2) show ?thesis by simp
  qed
qed

lemma kf_bind_lift:
  assumes "\<And>x. v = Inr x \<Longrightarrow> keeps_file N q (f x)"
  shows "keeps_file N q (bind_io (lift_io v) f)"
proof (rule keeps_fileI)
  fix w r w'
  assume names: "\<forall>x. filename (store w ! x) = N x" and run: "bind_io (lift_io v) f w = (r, w')"
  show "(\<forall>x. filename (store w' ! x) = N x) \<and> lookup (files w') q = lookup (files w) q"
  proof (cases v)
    case (Inl err)
    with run have "w' = w" by (simp add: bind_io_def lift_io_def)
    with names show ?thesis by simp
  next
    case (Inr x)
    with run have "f x w = (r, w')" by (simp add: bind_io_def lift_io_def)
    from keeps_fileD [OF assms [OF Inr] names this] show ?thesis by simp
  qed
qed

lemma kf_return: "keeps_file N q (return_io x)"
  by (simp add: keeps_file_def return_io_def)

lemma kf_raise: "keeps_file N q (raise_io x)"
  by (simp add: keeps_file_def raise_io_def)

lemma kf_lift: "keeps_file N q (lift_io x)"
  by (simp add: keeps_file_def lift_io_def)

lemma kf_pure: "keeps_file N q (\<lambda>w. (g w, w))"
  by (simp add: keeps_file_def)

lemma kf_if:
  assumes "keeps_file N q a" and "keeps_file N q b"
  shows "keeps_file N q (\<lambda>w. if c w then a w else b w)"
proof (rule keeps_fileI)
  fix w r w'
  assume names: "\<forall>x. filename (store w ! x) = N x" and run: "(if c w then a w else b w) = (r, w')"
  show "(\<forall>x. filename (store w' ! x) = N x) \<and> lookup (files w') q = lookup (files w) q"
  proof (cases "c w")
    case True
    with run have "a w = (r, w')" by simp
    from keeps_fileD [OF assms(1) names this] show ?thesis by simp
  next
    case False
    with run have "b w = (r, w')" by simp
    from keeps_fileD [OF assms(2) names this] show ?thesis by simp
  qed
qed

lemma kf_state:
  assumes "\<And>w0. \<forall>x. filename (store w0 ! x) = N x \<Longrightarrow> keeps_file N q (f w0)"
  shows "keeps_file N q (\<lambda>w. f w w)"
proof (rule keeps_fileI)
  fix w r w'
  assume names: "\<forall>x. filename (store w ! x) = N x" and run: "f w w = (r, w')"
  from keeps_fileD [OF assms [OF names] names run]
  show "(\<forall>x. filename (store w' ! x) = N x) \<and> lookup (files w') q = lookup (files w) q"
    by simp
qed

lemma lookup_root [simp]: "lookup f [] = Some Dir"
  by (simp add: lookup_def)

lemma put_file_cases:
  "put_file e p n w = (r, w') \<Longrightarrow>
     w' = w \<or> w' = w\<lparr>files := AList.update (resolve e p) n (files w)\<rparr>"
  by (auto simp: put_file_def Let_def split: option.splits node.splits)

lemma os_mkdir_cases:
  "os_mkdir e p w = (r, w') \<Longrightarrow>
     w' = w \<or> (lookup (files w) (resolve e p) = None \<and> w' = w\<lparr>files := files w @ [(resolve e p, Dir)]\<rparr>)"
  by (auto simp: os_mkdir_def Let_def split: option.splits node.splits if_splits)

lemma os_remove_cases:
  "os_remove e p w = (r, w') \<Longrightarrow>
     w' = w \<or> w' = w\<lparr>files := AList.delete (resolve e p) (files w)\<rparr>"
  by (auto simp: os_remove_def Let_def split: option.splits node.splits)

lemma kf_put_file:
  assumes "q = [] \<or> q \<noteq> resolve e p"
  shows "keeps_file N q (put_file e p n)"
proof (rule keeps_fileI)
  fix w r w'
  assume names: "\<forall>x. filename (store w ! x) = N x" and run: "put_file e p n w = (r, w')"
  from put_file_cases [OF run] assms names
  show "(\<forall>x. filename (store w' ! x) = N x) \<and> lookup (files w') q = lookup (files w) q"
    by (auto simp: lookup_update)
qed

lemma kf_os_mkdir:
  assumes "q = [] \<or> q \<noteq> resolve e p"
  shows "keeps_file N q (os_mkdir e p)"
proof (rule keeps_fileI)
  fix w r w'
  assume names: "\<forall>x. filename (store w ! x) = N x" and run: "os_mkdir e p w = (r, w')"
  from os_mkdir_cases [OF run] assms names
  show "(\<forall>x. filename (store w' ! x) = N x) \<and> lookup (files w') q = lookup (files w) q"
    by (auto simp: lookup_append_new split: option.splits)
qed

lemma kf_os_remove:
  assumes "q = [] \<or> q \<noteq> resolve e p"
  shows "keeps_file N q (os_remove e p)"
proof (rule keeps_fileI)
  fix w r w'
  assume names: "\<forall>x. filename (store w ! x) = N x" and run: "os_remove e p w = (r, w')"
  from os_remove_cases [OF run] assms names
  show "(\<forall>x. filename (store w' ! x) = N x) \<and> lookup (files w') q = lookup (files w) q"
    by (auto simp: lookup_delete)
qed

lemma filename_update_size:
  "filename (xs[i := (xs ! i)\<lparr>size_photo := sz\<rparr>] ! x) = filename (xs ! x)"
  by (cases "i < length xs") (simp_all add: nth_list_update list_update_beyond)

lemma filename_update_thumb_size:
  "filename (xs[i := (xs ! i)\<lparr>thumb_size_photo := sz\<rparr>] ! x) = filename (xs ! x)"
  by (cases "i < length xs") (simp_all add: nth_list_update list_update_beyond)

lemma kf_set_size: "keeps_file N q (set_size r sz)"
  by (simp add: keeps_file_def set_size_def filename_update_size)

lemma kf_set_thumb_size: "keeps_file N q (set_thumb_size r sz)"
  by (simp add: keeps_file_def set_thumb_size_def filename_update_thumb_size)

lemma kf_Image_open: "keeps_file N q (Image_open e p)"
  by (auto simp: keeps_file_def Image_open_def split: option.splits node.splits)

lemma kf_Image_save_jpeg:
  "q = [] \<or> q \<noteq> resolve e f \<Longrightarrow> keeps_file N q (Image_save_jpeg e im f)"
  by (simp add: Image_save_jpeg_def kf_raise kf_put_file)

lemma base_cong: "filename p = filename p' \<Longrightarrow> base p = base p'"
  by (simp add: base_def name_def Let_def)

lemma base_of_name:
  "filename p = N x \<Longrightarrow> base p = base (Photo_init (N x) [] 0)"
  by (rule base_cong) (simp add: Photo_init_def)

lemma kf_Photo_small:
  assumes "q = [] \<or> (q \<noteq> resolve e ''gallery/thumbs'' \<and>
             (\<forall>b. q \<noteq> resolve e ''gallery/thumbs'' @ [b @ ''-thumb.jpg'']))"
  shows "keeps_file N q (Photo_small e self t)"
proof -
  let ?rest = "\<lambda>p fl. bind_io (Image_open e p) (\<lambda>im.
               bind_io (set_size self (size_image im)) (\<lambda>_.
               bind_io (lift_io (thumb_dims t (size_image im))) (\<lambda>dims.
               bind_io (lift_io (Image_resize im dims)) (\<lambda>thumb.
               bind_io (Image_save_jpeg e thumb fl) (\<lambda>_.
               bind_io (set_thumb_size self dims) (\<lambda>_.
               return_io (replace_str fl ''gallery/'' [])))))))"
  have inner: "keeps_file N q (?rest p (''gallery/thumbs'' @ ''/'' @ base P @ ''-thumb.jpg''))" for p P
  proof -
    have "q = [] \<or> q \<noteq> resolve e (''gallery/thumbs'' @ ''/'' @ base P @ ''-thumb.jpg'')"
      using assms resolve_thumb_file [of e P] by metis
    then show ?thesis
      by (intro kf_bind kf_Image_open kf_set_size kf_lift kf_Image_save_jpeg
          kf_set_thumb_size kf_return)
  qed
  have third: "keeps_file N q (\<lambda>w. ?rest (os_path_join (path (store w ! self)) (name (store w ! self)))
                 (''gallery/thumbs'' @ ''/'' @ base (store w ! self) @ ''-thumb.jpg'') w)"
    by (rule kf_state) (rule inner)
  have c: "q = [] \<or> q \<noteq> resolve e ''gallery/thumbs''" using assms by blast
  have rm: "keeps_file N q (\<lambda>w. if os_path_exists e ''gallery/thumbs'' w \<and> \<not> os_path_isdir e ''gallery/thumbs'' w
                    then os_remove e ''gallery/thumbs'' w else (Inr (), w))"
    by (intro kf_if kf_os_remove [OF c] kf_pure)
  have mk: "keeps_file N q (\<lambda>w. if \<not> os_path_exists e ''gallery/thumbs'' w
                    then os_mkdir e ''gallery/thumbs'' w else (Inr (), w))"
    by (intro kf_if kf_os_mkdir [OF c] kf_pure)
  show ?thesis
    unfolding Photo_small_def Let_def
    by (rule kf_bind [OF rm kf_bind [OF mk third]])
qed

lemma kf_Photo_html:
  assumes "dir \<noteq> []"
    and "q = [] \<or> q \<noteq> resolve e dir @ [base (Photo_init (N P) [] 0) @ ''.html'']"
  shows "keeps_file N q (Photo_html e P A dir prev nxt rnd)"
proof (rule keeps_fileI)
  fix w r w'
  assume names: "\<forall>x. filename (store w ! x) = N x"
    and run: "Photo_html e P A dir prev nxt rnd w = (r, w')"
  from names have "filename (store w ! P) = N P" by blast
  then have b: "base (store w ! P) = base (Photo_init (N P) [] 0)"
    by (rule base_of_name [of "store w ! P" N P])
  have c: "q = [] \<or> q \<noteq> resolve e (dir @ ''/'' @ base (store w ! P) @ ''.html'')"
    using assms(2) unfolding resolve_page_file [OF assms(1)] b .
  have "Photo_html e P A dir prev nxt rnd w =
      put_file e (dir @ ''/'' @ base (store w ! P) @ ''.html'')
        (TextFile (Photo_html_page e (store w ! P)
           (Photo_html_body (store w ! P) A (store w ! prev) (store w ! nxt)
              (map (\<lambda>r. store w ! r) rnd)))) w"
    unfolding Photo_html_def write_text_def Let_def by (rule refl)
  with run have "put_file e (dir @ ''/'' @ base (store w ! P) @ ''.html'')
        (TextFile (Photo_html_page e (store w ! P)
           (Photo_html_body (store w ! P) A (store w ! prev) (store w ! nxt)
              (map (\<lambda>r. store w ! r) rnd)))) w = (r, w')"
    by (simp only:)
  from keeps_fileD [OF kf_put_file [OF c] names this]
  show "(\<forall>x. filename (store w' ! x) = N x) \<and> lookup (files w') q = lookup (files w) q"
    by blast
qed

subsection \<open>Navigation between the pages\<close>

lemma nav_indices_mod:
  assumes "0 \<le> i" "i < len"
  shows "nav_indices len i = ((i - 1) mod len, (i + 1) mod len)"
proof -
  have p: "(if i - 1 < 0 then len - 1 else i - 1) = (i - 1) mod len"
  proof (cases "i = 0")
    case True
    with assms have "(- 1) mod len = len - 1"
      by (metis diff_0 zmod_minus1)
    with True show ?thesis by simp
  next
    case False
    with assms show ?thesis by simp
  qed
  have n: "(if i + 1 \<ge> len then 0 else i + 1) = (i + 1) mod len"
  proof (cases "i + 1 = len")
    case True
    then show ?thesis by simp
  next
    case False
    with assms show ?thesis by simp
  qed
  show ?thesis unfolding nav_indices_def Let_def using p n by simp
qed

lemma Album_getitem_in_range:
  "0 \<le> i \<Longrightarrow> i < Album_len A \<Longrightarrow> Album_getitem A (IntKey i) = Inr (photos A ! nat i)"
  by (simp add: list_getitem_def Album_len_def)

lemma prev_next_mod:
  assumes "0 \<le> i" "i < Album_len A"
  shows "prev_next A i =
           Inr (photos A ! nat ((i - 1) mod Album_len A), photos A ! nat ((i + 1) mod Album_len A))"
proof -
  from assms have len: "0 < Album_len A" by simp
  then have a: "0 \<le> (i - 1) mod Album_len A" "(i - 1) mod Album_len A < Album_len A"
    and b: "0 \<le> (i + 1) mod Album_len A" "(i + 1) mod Album_len A < Album_len A"
    by simp_all
  show ?thesis
    unfolding prev_next_def
    by (simp add: nav_indices_mod [OF assms] Album_getitem_in_range [OF a] Album_getitem_in_range [OF b]
        del: Album_getitem.simps)
qed

subsection \<open>The links on a page\<close>

lemma contains_link_previous:
  "contains (link_previous (base pv)) (Photo_html_page e P (Photo_html_body P A pv nx rnd))"
proof -
  let ?X = "page_head e P @ body_prefetch P A @ body_index_link A"
  let ?R = "drop (length (link_previous (base pv))) (body_previous pv)"
  let ?Y = "?R @ body_image P A nx @ body_next nx @ body_rest P A rnd @ page_foot"
  have "body_previous pv = link_previous (base pv) @ ?R"
    by (simp add: body_previous_def link_previous_def)
  then have "Photo_html_page e P (Photo_html_body P A pv nx rnd) = ?X @ link_previous (base pv) @ ?Y"
    by (simp add: Photo_html_page_def Photo_html_body_def)
  then show ?thesis by (simp only: contains_infix)
qed

lemma contains_link_next:
  "contains (link_next (base nx)) (Photo_html_page e P (Photo_html_body P A pv nx rnd))"
proof -
  let ?X = "page_head e P @ body_prefetch P A @ body_index_link A @ body_previous pv @ body_image P A nx"
  let ?R = "drop (length (link_next (base nx))) (body_next nx)"
  let ?Y = "?R @ body_rest P A rnd @ page_foot"
  have "body_next nx = link_next (base nx) @ ?R"
    by (simp add: body_next_def link_next_def)
  then have "Photo_html_page e P (Photo_html_body P A pv nx rnd) = ?X @ link_next (base nx) @ ?Y"
    by (simp add: Photo_html_page_def Photo_html_body_def)
  then show ?thesis by (simp only: contains_infix)
qed

lemma html_name_not_thumbs: "x @ ''.html'' \<noteq> ''thumbs''"
proof
  assume "x @ ''.html'' = ''thumbs''"
  then have "last (x @ ''.html'') = last ''thumbs''" by (rule arg_cong)
  then show False by simp
qed

lemma html_name_not_thumb_jpg: "x @ ''.html'' \<noteq> b @ ''-thumb.jpg''"
proof
  assume "x @ ''.html'' = b @ ''-thumb.jpg''"
  then have "last (x @ ''.html'') = last (b @ ''-thumb.jpg'')" by (rule arg_cong)
  then show False by simp
qed

lemma page_path_apart:
  assumes "q = d @ [x @ ''.html'']"
  shows "q = [] \<or> (q \<noteq> resolve e ''gallery/thumbs'' \<and>
             (\<forall>b. q \<noteq> resolve e ''gallery/thumbs'' @ [b @ ''-thumb.jpg'']))"
  using assms html_name_not_thumbs [of x] html_name_not_thumb_jpg [of x]
  by (simp add: resolve_thumbs_dir)

subsection \<open>One round of the loop\<close>

lemma kf_html_step:
  assumes dir: "dir \<noteq> []"
    and apart: "q = [] \<or> (q \<noteq> resolve e ''gallery/thumbs'' \<and>
             (\<forall>b. q \<noteq> resolve e ''gallery/thumbs'' @ [b @ ''-thumb.jpg'']))"
    and other: "\<And>P. Album_getitem A (IntKey j) = Inr P \<Longrightarrow>
             q = [] \<or> q \<noteq> resolve e dir @ [base (Photo_init (N P) [] 0) @ ''.html'']"
  shows "keeps_file N q (html_step e A dir body j)"
  unfolding html_step_def
proof (rule kf_bind_lift)
  fix P
  assume P: "Album_getitem A (IntKey j) = Inr P"
  have last_part: "keeps_file N q (case pn of (prev, nxt) \<Rightarrow>
       let s_photos = shuffle e (nat j) (photos A);
           random_images = take 9 (filter (\<lambda>itr. \<not> (itr = prev \<or> itr = nxt \<or> itr = P)) s_photos)
       in bind_io (Photo_html e P A dir prev nxt random_images) (\<lambda>_. return_io b))" for pn b
    unfolding Let_def split_def
    by (intro kf_bind kf_Photo_html [where N = N and P = P, OF dir other [OF P]] kf_return)
  show "keeps_file N q (bind_io (\<lambda>w. (Inr (base (store w ! P)), w)) (\<lambda>base_name.
     bind_io (Photo_small e P (thumb_size A)) (\<lambda>fname.
     bind_io (\<lambda>w. (Inr (body @ Album_html_entry base_name (store w ! P) fname), w)) (\<lambda>body.
     bind_io (lift_io (prev_next A j)) (\<lambda>(prev, next).
       let s_photos = shuffle e (nat j) (photos A);
           random_images = take 9 (filter (\<lambda>itr. \<not> (itr = prev \<or> itr = next \<or> itr = P)) s_photos)
       in bind_io (Photo_html e P A dir prev next random_images) (\<lambda>_. return_io body))))))"
    by (intro kf_bind kf_pure kf_Photo_small [OF apart] kf_lift last_part)
qed

lemma html_step_runs:
  assumes "html_step e A dir body i w = (Inr b, w')"
  shows "\<exists>P fname w1 prev nxt rnd. Album_getitem A (IntKey i) = Inr P \<and>
           Photo_small e P (thumb_size A) w = (Inr fname, w1) \<and>
           prev_next A i = Inr (prev, nxt) \<and>
           Photo_html e P A dir prev nxt rnd w1 = (Inr (), w')"
proof -
  from assms obtain P where P: "Album_getitem A (IntKey i) = Inr P"
    by (cases "Album_getitem A (IntKey i)") (simp_all add: html_step_def bind_io_def lift_io_def)
  obtain r1 w1 where small: "Photo_small e P (thumb_size A) w = (r1, w1)"
    by (cases "Photo_small e P (thumb_size A) w")
  from assms P small obtain fname where r1: "r1 = Inr fname"
    by (cases r1) (simp_all add: html_step_def bind_io_def lift_io_def)
  from assms P small r1 obtain prev nxt where pn: "prev_next A i = Inr (prev, nxt)"
    by (cases "prev_next A i") (auto simp: html_step_def bind_io_def lift_io_def)
  let ?rnd = "take 9 (filter (\<lambda>itr. \<not> (itr = prev \<or> itr = nxt \<or> itr = P)) (shuffle e (nat i) (photos A)))"
  obtain r2 w2 where ph: "Photo_html e P A dir prev nxt ?rnd w1 = (r2, w2)"
    by (cases "Photo_html e P A dir prev nxt ?rnd w1")
  from assms P small r1 pn ph have "r2 = Inr () \<and> w2 = w'"
    by (cases r2) (simp_all add: html_step_def bind_io_def lift_io_def return_io_def Let_def)
  with P small r1 pn ph show ?thesis by blast
qed

lemma Photo_html_page_written:
  assumes "Photo_html e P A dir prev nxt rnd w = (Inr u, w')" and "dir \<noteq> []"
  shows "lookup (files w') (resolve e dir @ [base (store w ! P) @ ''.html'']) =
     Some (TextFile (Photo_html_page e (store w ! P)
        (Photo_html_body (store w ! P) A (store w ! prev) (store w ! nxt) (map (\<lambda>r. store w ! r) rnd))))"
proof -
  let ?s = "Photo_html_page e (store w ! P)
        (Photo_html_body (store w ! P) A (store w ! prev) (store w ! nxt) (map (\<lambda>r. store w ! r) rnd))"
  let ?p = "dir @ ''/'' @ base (store w ! P) @ ''.html''"
  have "Photo_html e P A dir prev nxt rnd w = put_file e ?p (TextFile ?s) w"
    unfolding Photo_html_def write_text_def Let_def by (rule refl)
  with assms(1) have put: "put_file e ?p (TextFile ?s) w = (Inr u, w')" by (simp only:)
  have ne: "resolve e ?p \<noteq> []" unfolding resolve_page_file [OF assms(2)] by simp
  from put have "w' = w\<lparr>files := AList.update (resolve e ?p) (TextFile ?s) (files w)\<rparr>"
    by (auto simp: put_file_def Let_def split: option.splits node.splits)
  then have "lookup (files w') (resolve e ?p) = Some (TextFile ?s)"
    using ne by (simp add: lookup_update)
  then show ?thesis by (simp only: resolve_page_file [OF assms(2)])
qed

lemma html_step_page:
  assumes run: "html_step e A dir body i w = (Inr b, w')" and dir: "dir \<noteq> []"
    and names: "\<forall>x. filename (store w ! x) = N x"
  shows "\<exists>P prev nxt s. Album_getitem A (IntKey i) = Inr P \<and> prev_next A i = Inr (prev, nxt) \<and>
     lookup (files w') (resolve e dir @ [base (Photo_init (N P) [] 0) @ ''.html'']) = Some (TextFile s) \<and>
     contains (link_previous (base (Photo_init (N prev) [] 0))) s \<and>
     contains (link_next (base (Photo_init (N nxt) [] 0))) s"
proof -
  from html_step_runs [OF run] obtain P fname w1 prev nxt rnd where
    P: "Album_getitem A (IntKey i) = Inr P"
    and small: "Photo_small e P (thumb_size A) w = (Inr fname, w1)"
    and pn: "prev_next A i = Inr (prev, nxt)"
    and ph: "Photo_html e P A dir prev nxt rnd w1 = (Inr (), w')"
    by blast
  have k: "keeps_file N [] (Photo_small e P (thumb_size A))"
    by (rule kf_Photo_small) simp
  have n1: "\<forall>x. filename (store w1 ! x) = N x"
    by (rule keeps_fileD(1) [OF k names small])
  have b: "base (store w1 ! x) = base (Photo_init (N x) [] 0)" for x
    using n1 by (intro base_of_name [of "store w1 ! x" N x]) blast
  let ?s = "Photo_html_page e (store w1 ! P)
        (Photo_html_body (store w1 ! P) A (store w1 ! prev) (store w1 ! nxt) (map (\<lambda>r. store w1 ! r) rnd))"
  from Photo_html_page_written [OF ph dir]
  have "lookup (files w') (resolve e dir @ [base (Photo_init (N P) [] 0) @ ''.html'']) = Some (TextFile ?s)"
    by (simp only: b)
  moreover have "contains (link_previous (base (Photo_init (N prev) [] 0))) ?s"
    using contains_link_previous [of "store w1 ! prev" e "store w1 ! P" A "store w1 ! nxt"]
    by (simp only: b)
  moreover have "contains (link_next (base (Photo_init (N nxt) [] 0))) ?s"
    using contains_link_next [of "store w1 ! nxt" e "store w1 ! P" A "store w1 ! prev"]
    by (simp only: b)
  ultimately show ?thesis using P pn by blast
qed

subsection \<open>The loop\<close>

lemma kf_html_loop:
  assumes dir: "dir \<noteq> []"
    and apart: "q = [] \<or> (q \<noteq> resolve e ''gallery/thumbs'' \<and>
             (\<forall>b. q \<noteq> resolve e ''gallery/thumbs'' @ [b @ ''-thumb.jpg'']))"
    and other: "\<And>j P. j \<in> set js \<Longrightarrow> Album_getitem A (IntKey j) = Inr P \<Longrightarrow>
             q = [] \<or> q \<noteq> resolve e dir @ [base (Photo_init (N P) [] 0) @ ''.html'']"
  shows "keeps_file N q (html_loop e A dir body js)"
  using other
proof (induction js arbitrary: body)
  case Nil
  show ?case by (simp add: kf_return)
next
  case (Cons j js)
  have step: "keeps_file N q (html_step e A dir body j)"
    by (rule kf_html_step [OF dir apart]) (rule Cons.prems, simp_all)
  have rest: "keeps_file N q (html_loop e A dir b js)" for b
    by (rule Cons.IH) (rule Cons.prems, simp_all)
  show ?case by (simp add: kf_bind [OF step rest])
qed

lemma html_loop_append:
  "html_loop e A dir body (xs @ ys) =
     bind_io (html_loop e A dir body xs) (\<lambda>b. html_loop e A dir b ys)"
proof (induction xs arbitrary: body)
  case Nil
  show ?case by (simp add: bind_io_def return_io_def)
next
  case (Cons x xs)
  show ?case
    by (rule ext) (simp add: Cons.IH bind_io_def split: prod.splits sum.splits)
qed

lemma html_loop_split:
  assumes "html_loop e A dir body (xs @ i # ys) w = (Inr b, w')"
  shows "\<exists>b1 w1 b2 w2. html_loop e A dir body xs w = (Inr b1, w1) \<and>
           html_step e A dir b1 i w1 = (Inr b2, w2) \<and>
           html_loop e A dir b2 ys w2 = (Inr b, w')"
proof -
  obtain r1 w1 where l1: "html_loop e A dir body xs w = (r1, w1)"
    by (cases "html_loop e A dir body xs w")
  from assms l1 obtain b1 where r1: "r1 = Inr b1"
    by (cases r1) (simp_all add: html_loop_append bind_io_def)
  obtain r2 w2 where st: "html_step e A dir b1 i w1 = (r2, w2)"
    by (cases "html_step e A dir b1 i w1")
  from assms l1 r1 st obtain b2 where r2: "r2 = Inr b2"
    by (cases r2) (simp_all add: html_loop_append bind_io_def)
  from assms l1 r1 st r2 have "html_loop e A dir b2 ys w2 = (Inr b, w')"
    by (simp add: html_loop_append bind_io_def)
  with l1 r1 st r2 show ?thesis by blast
qed

subsection \<open>The whole rendering\<close>

lemma Album_html_runs:
  assumes run: "Album_html e A n d w = (Inr u, w')"
  shows "\<exists>w0 b wl. store w0 = store w \<and>
          (if os_path_exists e (''.'' @ ''/'' @ n) w then w0 = w
           else os_mkdir e (''.'' @ ''/'' @ n) w = (Inr (), w0)) \<and>
          html_loop e A (''.'' @ ''/'' @ n) ''<DIV>'' (map int [0..<length (photos A)]) w0 = (Inr b, wl) \<and>
          write_text e ((''.'' @ ''/'' @ n) @ ''/index.html'')
            (Album_html_index e A (b @ ''</DIV>\<newline>\<newline>'')) wl = (Inr u, w')"
proof -
  let ?dir = "''.'' @ ''/'' @ n"
  let ?first = "\<lambda>w. if os_path_exists e ?dir w
                    then (if \<not> d
                          then (Inl (IOError (''The directory '' @ squote @ ?dir @ squote @
                                   '' already exists.  Please delete it first.'')), w)
                          else (Inr (), w))
                    else os_mkdir e ?dir w"
  let ?loop = "html_loop e A ?dir ''<DIV>'' (map int [0..<length (photos A)])"
  let ?last = "\<lambda>body. write_text e (?dir @ ''/index.html'')
                  (Album_html_index e A (body @ ''</DIV>\<newline>\<newline>''))"
  have eq: "Album_html e A n d = bind_io ?first (\<lambda>_. bind_io ?loop ?last)"
    unfolding Album_html_def Let_def by (rule refl)
  obtain r0 w0 where f: "?first w = (r0, w0)" by (cases "?first w")
  from run f have r0: "r0 = Inr ()"
    unfolding eq by (cases r0) (simp_all add: bind_io_def)
  have st: "store w0 = store w"
  proof (cases "os_path_exists e ?dir w")
    case True
    with f show ?thesis by (auto split: if_splits)
  next
    case False
    with f have "os_mkdir e ?dir w = (r0, w0)" by simp
    from os_mkdir_cases [OF this] show ?thesis by auto
  qed
  obtain r1 wl where l: "?loop w0 = (r1, wl)" by (cases "?loop w0")
  from run f r0 l obtain b where r1: "r1 = Inr b"
    unfolding eq by (cases r1) (simp_all add: bind_io_def)
  have fst: "if os_path_exists e ?dir w then w0 = w else os_mkdir e ?dir w = (Inr (), w0)"
    using f r0 by (auto split: if_splits)
  from run f r0 l r1 have "?last b wl = (Inr u, w')"
    unfolding eq by (simp add: bind_io_def)
  with st fst l r1 show ?thesis by blast
qed

lemma upt_split: "i < N \<Longrightarrow> [0..<N] = [0..<i] @ i # [Suc i..<N]"
  using upt_add_eq_append [of 0 i "N - i"] by (simp add: upt_conv_Cons)

text \<open>Where no later photo has the same base name and the photo is not named
  \<^verbatim>\<open>index\<close>, the page of the photo at index \<open>i\<close> is still there when the rendering has returned,
  with its two links.\<close>

lemma page_after_html:
  assumes run: "Album_html e A n d w = (Inr u, w')"
    and i: "i < length (photos A)"
    and later: "\<And>j. i < j \<Longrightarrow> j < length (photos A) \<Longrightarrow>
                  base (store w ! (photos A ! j)) \<noteq> base (store w ! (photos A ! i))"
    and noidx: "base (store w ! (photos A ! i)) \<noteq> ''index''"
  shows "\<exists>s. lookup (files w') (resolve e (''./'' @ n @ ''/'' @ base (store w ! (photos A ! i)) @ ''.html''))
              = Some (TextFile s) \<and>
            contains (link_previous (base (store w !
              (photos A ! nat ((int i - 1) mod int (length (photos A))))))) s \<and>
            contains (link_next (base (store w !
              (photos A ! nat ((int i + 1) mod int (length (photos A))))))) s"
proof -
  let ?dir = "''.'' @ ''/'' @ n"
  let ?N = "\<lambda>x. filename (store w ! x)"
  let ?len = "length (photos A)"
  let ?Pi = "photos A ! i"
  let ?q = "resolve e ?dir @ [base (store w ! ?Pi) @ ''.html'']"
  have dir: "?dir \<noteq> []" by simp
  have bN: "base (Photo_init (?N x) [] 0) = base (store w ! x)" for x
    by (rule base_of_name [symmetric]) (rule refl)
  have apart: "?q = [] \<or> (?q \<noteq> resolve e ''gallery/thumbs'' \<and>
             (\<forall>b. ?q \<noteq> resolve e ''gallery/thumbs'' @ [b @ ''-thumb.jpg'']))"
    by (rule page_path_apart) (rule refl)
  from Album_html_runs [OF run] obtain w0 b wl where
    st: "store w0 = store w"
    and first: "if os_path_exists e ?dir w then w0 = w else os_mkdir e ?dir w = (Inr (), w0)"
    and loop: "html_loop e A ?dir ''<DIV>'' (map int [0..<?len]) w0 = (Inr b, wl)"
    and last: "write_text e (?dir @ ''/index.html'')
            (Album_html_index e A (b @ ''</DIV>\<newline>\<newline>'')) wl = (Inr u, w')"
    by blast
  have n0: "\<forall>x. filename (store w0 ! x) = ?N x" using st by simp
  have split: "map int [0..<?len] = map int [0..<i] @ int i # map int [Suc i..<?len]"
    using upt_split [OF i] by (metis list.simps(9) map_append)
  from html_loop_split [OF loop [unfolded split]] obtain b1 w1 b2 w2 where
    l1: "html_loop e A ?dir ''<DIV>'' (map int [0..<i]) w0 = (Inr b1, w1)"
    and stp: "html_step e A ?dir b1 (int i) w1 = (Inr b2, w2)"
    and l2: "html_loop e A ?dir b2 (map int [Suc i..<?len]) w2 = (Inr b, wl)"
    by blast
  have k1: "keeps_file ?N [] (html_loop e A ?dir ''<DIV>'' (map int [0..<i]))"
    by (rule kf_html_loop [OF dir]) simp_all
  have n1: "\<forall>x. filename (store w1 ! x) = ?N x"
    by (rule keeps_fileD(1) [OF k1 n0 l1])
  from html_step_page [OF stp dir n1] obtain P prev nxt s where
    P: "Album_getitem A (IntKey (int i)) = Inr P"
    and pn: "prev_next A (int i) = Inr (prev, nxt)"
    and page: "lookup (files w2) (resolve e ?dir @ [base (Photo_init (?N P) [] 0) @ ''.html'']) = Some (TextFile s)"
    and lp: "contains (link_previous (base (Photo_init (?N prev) [] 0))) s"
    and ln: "contains (link_next (base (Photo_init (?N nxt) [] 0))) s"
    by blast
  have ir: "0 \<le> int i" "int i < Album_len A" using i by (simp_all add: Album_len_def)
  from P Album_getitem_in_range [OF ir] have Pi: "P = ?Pi" by simp
  from pn prev_next_mod [OF ir] have
    prev: "prev = photos A ! nat ((int i - 1) mod int ?len)"
    and nxt: "nxt = photos A ! nat ((int i + 1) mod int ?len)"
    by (simp_all add: Album_len_def)
  have page2: "lookup (files w2) ?q = Some (TextFile s)"
    using page unfolding bN Pi .
  have k0: "keeps_file ?N [] (html_step e A ?dir b1 (int i))"
    by (rule kf_html_step [OF dir]) simp_all
  have n2: "\<forall>x. filename (store w2 ! x) = ?N x"
    by (rule keeps_fileD(1) [OF k0 n1 stp])
  have k2: "keeps_file ?N ?q (html_loop e A ?dir b2 (map int [Suc i..<?len]))"
  proof (rule kf_html_loop [OF dir apart])
    fix j P'
    assume j: "j \<in> set (map int [Suc i..<?len])" and P': "Album_getitem A (IntKey j) = Inr P'"
    from j obtain k where k: "j = int k" "i < k" "k < ?len" by auto
    then have "0 \<le> j" "j < Album_len A" by (simp_all add: Album_len_def)
    from P' Album_getitem_in_range [OF this] k have "P' = photos A ! k" by simp
    with later [OF k(2,3)] have "base (store w ! P') \<noteq> base (store w ! ?Pi)" by simp
    then show "?q = [] \<or> ?q \<noteq> resolve e ?dir @ [base (Photo_init (?N P') [] 0) @ ''.html'']"
      unfolding bN by simp
  qed
  have pagel: "lookup (files wl) ?q = Some (TextFile s)"
    using keeps_fileD(2) [OF k2 n2 l2] page2 by simp
  have nl: "\<forall>x. filename (store wl ! x) = ?N x"
    by (rule keeps_fileD(1) [OF k2 n2 l2])
  have idx: "resolve e (?dir @ ''/index.html'') = resolve e ?dir @ [''index.html'']"
    using resolve_child [of ?dir "''index.html''" e] by simp
  have "?q \<noteq> resolve e (?dir @ ''/index.html'')"
    unfolding idx using noidx by simp
  then have k3: "keeps_file ?N ?q (write_text e (?dir @ ''/index.html'')
            (Album_html_index e A (b @ ''</DIV>\<newline>\<newline>'')))"
    unfolding write_text_def by (intro kf_put_file) simp
  have final: "lookup (files w') ?q = Some (TextFile s)"
    using keeps_fileD(2) [OF k3 nl last] pagel by simp
  have path: "resolve e (''./'' @ n @ ''/'' @ base (store w ! ?Pi) @ ''.html'') = ?q"
    using resolve_page_file [OF dir, of e "store w ! ?Pi"] by simp
  from lp ln have "contains (link_previous (base (store w ! prev))) s"
    and "contains (link_next (base (store w ! nxt))) s"
    unfolding bN by simp_all
  with final path prev nxt show ?thesis by (simp only:) blast
qed

subsection \<open>Circular navigation\<close>

lemma nav_prev_index:
  assumes "i < N"
  shows "nat ((int i - 1) mod int N) = (if i = 0 then N - 1 else i - 1)"
proof (cases "i = 0")
  case True
  from assms have "(- 1) mod int N = int N - 1"
    by (metis of_nat_0_less_iff gr_implies_not_zero neq0_conv zmod_minus1)
  with True show ?thesis by simp
next
  case False
  with assms have "(int i - 1) mod int N = int i - 1" by simp
  with False show ?thesis by simp
qed

lemma nav_next_index:
  assumes "i < N"
  shows "nat ((int i + 1) mod int N) = (if i = N - 1 then 0 else i + 1)"
proof (cases "i = N - 1")
  case True
  with assms have "int i + 1 = int N" by arith
  with True show ?thesis by simp
next
  case False
  with assms have "(int i + 1) mod int N = int i + 1" by simp
  with False show ?thesis by simp
qed

text \<open>
  C9. A rendering of an album of \<open>N\<close> photos that returns makes the rounds of the photos at
  indices \<open>0, \<dots>, N - 1\<close> in this order and then writes the index. Right after the round of
  the photo at index \<open>i\<close>, the page of that photo holds a link \<open>Previous\<close> to the page of the
  photo at index \<open>i - 1\<close>, or \<open>N - 1\<close> when \<open>i = 0\<close>, and a link \<open>Next\<close> to the page of the photo
  at index \<open>i + 1\<close>, or \<open>0\<close> when \<open>i = N - 1\<close>. So the photo at index 0 has the photo at index
  \<open>N - 1\<close> before it and the photo at index 1 after it (itself in an album of one photo),
  and the photo at index \<open>N - 1\<close> has the photo at index 0 after it.
\<close>

theorem html_navigation_wraps:
  fixes A :: album and n :: string
  defines "N \<equiv> length (photos A)" and "dir \<equiv> ''./'' @ n"
  assumes run: "Album_html e A n d w = (Inr u, w')" and i: "i < N"
  shows "\<exists>w0 b0 wi b1 w1 b2 w2 s.
     (if os_path_exists e dir w then w0 = w else os_mkdir e dir w = (Inr (), w0)) \<and>
     html_loop e A dir ''<DIV>'' (map int [0..<i]) w0 = (Inr b0, wi) \<and>
     html_step e A dir b0 (int i) wi = (Inr b1, w1) \<and>
     html_loop e A dir b1 (map int [Suc i..<N]) w1 = (Inr b2, w2) \<and>
     write_text e (dir @ ''/index.html'') (Album_html_index e A (b2 @ ''</DIV>\<newline>\<newline>'')) w2
       = (Inr u, w') \<and>
     lookup (files w1) (resolve e (dir @ ''/'' @ base (store w ! (photos A ! i)) @ ''.html''))
       = Some (TextFile s) \<and>
     contains (link_previous (base (store w ! (photos A ! (if i = 0 then N - 1 else i - 1))))) s \<and>
     contains (link_next (base (store w ! (photos A ! (if i = N - 1 then 0 else i + 1))))) s"
proof -
  let ?N = "\<lambda>x. filename (store w ! x)"
  have d: "dir = ''.'' @ ''/'' @ n" by (simp add: dir_def)
  have dir: "dir \<noteq> []" by (simp add: dir_def)
  have i': "i < length (photos A)" using i by (simp add: N_def)
  have bN: "base (Photo_init (?N x) [] 0) = base (store w ! x)" for x
    by (rule base_of_name [symmetric]) (rule refl)
  from Album_html_runs [OF run] obtain w0 b wl where
    st: "store w0 = store w"
    and first: "if os_path_exists e dir w then w0 = w else os_mkdir e dir w = (Inr (), w0)"
    and loop: "html_loop e A dir ''<DIV>'' (map int [0..<N]) w0 = (Inr b, wl)"
    and last: "write_text e (dir @ ''/index.html'')
            (Album_html_index e A (b @ ''</DIV>\<newline>\<newline>'')) wl = (Inr u, w')"
    unfolding d N_def by blast
  have n0: "\<forall>x. filename (store w0 ! x) = ?N x" using st by simp
  have split: "map int [0..<N] = map int [0..<i] @ int i # map int [Suc i..<N]"
    using upt_split [OF i] by (metis list.simps(9) map_append)
  from html_loop_split [OF loop [unfolded split]] obtain b0 wi b1 w1 where
    l1: "html_loop e A dir ''<DIV>'' (map int [0..<i]) w0 = (Inr b0, wi)"
    and stp: "html_step e A dir b0 (int i) wi = (Inr b1, w1)"
    and l2: "html_loop e A dir b1 (map int [Suc i..<N]) w1 = (Inr b, wl)"
    by blast
  have k1: "keeps_file ?N [] (html_loop e A dir ''<DIV>'' (map int [0..<i]))"
    by (rule kf_html_loop [OF dir]) simp_all
  have n1: "\<forall>x. filename (store wi ! x) = ?N x"
    by (rule keeps_fileD(1) [OF k1 n0 l1])
  from html_step_page [OF stp dir n1] obtain P prev nxt s where
    P: "Album_getitem A (IntKey (int i)) = Inr P"
    and pn: "prev_next A (int i) = Inr (prev, nxt)"
    and page: "lookup (files w1) (resolve e dir @ [base (Photo_init (?N P) [] 0) @ ''.html''])
                 = Some (TextFile s)"
    and lp: "contains (link_previous (base (Photo_init (?N prev) [] 0))) s"
    and ln: "contains (link_next (base (Photo_init (?N nxt) [] 0))) s"
    by blast
  have ir: "0 \<le> int i" "int i < Album_len A" using i' by (simp_all add: Album_len_def)
  from P Album_getitem_in_range [OF ir] have Pi: "P = photos A ! i" by simp
  from pn prev_next_mod [OF ir] have
    prev: "prev = photos A ! (if i = 0 then N - 1 else i - 1)"
    and nxt: "nxt = photos A ! (if i = N - 1 then 0 else i + 1)"
    unfolding Album_len_def N_def [symmetric] nav_prev_index [OF i] nav_next_index [OF i]
    by simp_all
  have path: "resolve e (dir @ ''/'' @ base (store w ! (photos A ! i)) @ ''.html'')
                = resolve e dir @ [base (store w ! (photos A ! i)) @ ''.html'']"
    by (rule resolve_page_file [OF dir])
  have page2: "lookup (files w1) (resolve e (dir @ ''/'' @ base (store w ! (photos A ! i)) @ ''.html''))
                 = Some (TextFile s)"
    using page unfolding bN Pi path .
  have lp2: "contains (link_previous (base (store w ! (photos A ! (if i = 0 then N - 1 else i - 1))))) s"
    using lp unfolding bN prev .
  have ln2: "contains (link_next (base (store w ! (photos A ! (if i = N - 1 then 0 else i + 1))))) s"
    using ln unfolding bN nxt .
  from first l1 stp l2 last page2 lp2 ln2 show ?thesis by blast
qed

text \<open>The rendering of the three example photos returns.\<close>

lemma Album_html_example_three:
  "fst (Album_html example_env example_gallery ''gallery'' True example_world) = Inr ()"
  by code_simp

theorem html_navigation_wraps_witness:
  "fst (Album_html example_env example_gallery ''gallery'' True example_world) = Inr () \<and>
   photos example_gallery = [0, 1, 2] \<and>
   (\<exists>b1 w1 s.
      html_step example_env example_gallery ''./gallery'' ''<DIV>'' 0 example_world = (Inr b1, w1) \<and>
      lookup (files w1) (resolve example_env ''./gallery/a.html'') = Some (TextFile s) \<and>
      contains (link_previous ''c'') s \<and> contains (link_next ''b'') s) \<and>
   (\<exists>b0 wi b1 w1 s.
      html_loop example_env example_gallery ''./gallery'' ''<DIV>'' [0, 1] example_world = (Inr b0, wi) \<and>
      html_step example_env example_gallery ''./gallery'' b0 2 wi = (Inr b1, w1) \<and>
      lookup (files w1) (resolve example_env ''./gallery/c.html'') = Some (TextFile s) \<and>
      contains (link_previous ''b'') s \<and> contains (link_next ''a'') s)"
proof -
  let ?run = "Album_html example_env example_gallery ''gallery'' True example_world"
  have run: "?run = (Inr (), snd ?run)"
    using Album_html_example_three by (metis prod.collapse)
  have ps: "photos example_gallery = [0, 1, 2]" by code_simp
  have b0: "base (store example_world ! 0) = ''a''" by code_simp
  have b1: "base (store example_world ! 1) = ''b''" by code_simp
  have b2: "base (store example_world ! 2) = ''c''" by code_simp
  have ex: "os_path_exists example_env ''./gallery'' example_world" by code_simp
  have i0: "0 < length (photos example_gallery)" and i2: "2 < length (photos example_gallery)"
    using ps by simp_all
  have m: "map int [0..<2] = [0, 1]" by code_simp
  from html_navigation_wraps [OF run i0]
  have first: "\<exists>b1 w1 s.
      html_step example_env example_gallery ''./gallery'' ''<DIV>'' 0 example_world = (Inr b1, w1) \<and>
      lookup (files w1) (resolve example_env ''./gallery/a.html'') = Some (TextFile s) \<and>
      contains (link_previous ''c'') s \<and> contains (link_next ''b'') s"
    using ex ps b0 b1 b2 by (simp add: return_io_def) blast
  from html_navigation_wraps [OF run i2]
  have last: "\<exists>b0 wi b1 w1 s.
      html_loop example_env example_gallery ''./gallery'' ''<DIV>'' [0, 1] example_world = (Inr b0, wi) \<and>
      html_step example_env example_gallery ''./gallery'' b0 2 wi = (Inr b1, w1) \<and>
      lookup (files w1) (resolve example_env ''./gallery/c.html'') = Some (TextFile s) \<and>
      contains (link_previous ''b'') s \<and> contains (link_next ''a'') s"
    using ex ps b0 b1 b2 m by (simp del: html_loop.simps) blast
  from Album_html_example_three ps first last show ?thesis by (intro conjI)
qed

subsection \<open>Scanning a directory\<close>

lemma scan_dir_fresh:
  assumes "scan_dir dir Fs ps w = (ps', w')"
    and "\<forall>r\<in>set ps. r < length (store w) \<and> (\<exists>F. store w ! r = Photo_init (dir @ ''/'' @ F) F 0)"
  shows "(\<forall>r\<in>set ps'. r < length (store w') \<and> (\<exists>F. store w' ! r = Photo_init (dir @ ''/'' @ F) F 0))
         \<and> files w' = files w"
  using assms
proof (induction Fs arbitrary: ps w)
  case Nil
  then show ?case by simp
next
  case (Cons F Fs)
  show ?case
  proof (cases "lower (extension F) \<in> set PHOTO_EXTENSIONS")
    case False
    with Cons.prems have "scan_dir dir Fs ps w = (ps', w')" by simp
    from Cons.IH [OF this Cons.prems(2)] show ?thesis .
  next
    case True
    let ?w = "w\<lparr>store := store w @ [Photo_init (dir @ ''/'' @ F) F 0]\<rparr>"
    from True Cons.prems have run: "scan_dir dir Fs (ps @ [length (store w)]) ?w = (ps', w')"
      by (simp add: alloc_def)
    have inv: "\<forall>r\<in>set (ps @ [length (store w)]). r < length (store ?w) \<and>
                 (\<exists>F. store ?w ! r = Photo_init (dir @ ''/'' @ F) F 0)"
      using Cons.prems(2) by (auto simp: nth_append)
    from Cons.IH [OF run inv] show ?thesis by simp
  qed
qed

text \<open>
  C1. \<open>album\<close> is meant to apply the entries of a companion text file to the scanned
  Photos. As written it opens no file: every Photo of the album it returns has rating 0
  and the file name it was listed under as caption, whatever the directory holds, and
  the file system is left as it was.
\<close>

theorem album_applies_no_metadata:
  assumes "album e d n w = (Inr A, w')" and "r \<in> set (photos A)"
  shows "rating (store w' ! r) = 0 \<and>
         (\<exists>F. caption (store w' ! r) = F \<and>
              filename (store w' ! r) = os_path_join (cwd e) (album_path e) @ ''/'' @ F) \<and>
         files w' = files w"
proof -
  let ?dir = "os_path_join (cwd e) (album_path e)"
  obtain ps w1 where sc: "scan_dir ?dir (os_listdir e ?dir w) [] w = (ps, w1)"
    by (cases "scan_dir ?dir (os_listdir e ?dir w) [] w")
  from assms(1) sc have isd: "os_path_isdir e ?dir w"
    by (auto simp: album_def Let_def split: if_splits)
  with assms(1) sc have w': "w' = w1" and A: "set (photos A) = set ps"
    by (auto simp: album_def Let_def Album_sort_def Album_init_def set_title_def sort_photos_def)
  from scan_dir_fresh [OF sc] have
    fr: "\<forall>r\<in>set ps. r < length (store w1) \<and> (\<exists>F. store w1 ! r = Photo_init (?dir @ ''/'' @ F) F 0)"
    and fl: "files w1 = files w" by simp_all
  from assms(2) A have "r \<in> set ps" by simp
  with fr obtain F where "store w1 ! r = Photo_init (?dir @ ''/'' @ F) F 0" by blast
  then show ?thesis using w' fl by (simp add: Photo_init_def)
qed

theorem album_applies_no_metadata_witness:
  "lookup (files example_world) [''home'', ''u'', ''pics'', ''notes.txt'']
     = Some (TextFile ''a.jpg: 2 [line one\<newline>line two]\<newline>b.jpg: caption text\<newline>'') \<and>
   fst (album example_env ''pics'' False example_world) = Inr example_scanned \<and>
   photos example_scanned = [3, 4, 5] \<and>
   name (store (snd (album example_env ''pics'' False example_world)) ! 3) = ''a.jpg'' \<and>
   rating (store (snd (album example_env ''pics'' False example_world)) ! 3) = 0 \<and>
   caption (store (snd (album example_env ''pics'' False example_world)) ! 3) = ''a.jpg''"
proof -
  let ?run = "album example_env ''pics'' False example_world"
  have a: "lookup (files example_world) [''home'', ''u'', ''pics'', ''notes.txt'']
     = Some (TextFile ''a.jpg: 2 [line one\<newline>line two]\<newline>b.jpg: caption text\<newline>'')"
    by code_simp
  have b: "fst ?run = Inr example_scanned" by code_simp
  then have run: "?run = (Inr example_scanned, snd ?run)" by (metis prod.collapse)
  have c: "photos example_scanned = [3, 4, 5]" by code_simp
  then have m: "3 \<in> set (photos example_scanned)" by simp
  have d: "name (store (snd ?run) ! 3) = ''a.jpg''" by code_simp
  have e: "caption (store (snd ?run) ! 3) = ''a.jpg''" by code_simp
  show ?thesis using a b c d e album_applies_no_metadata [OF run m] by simp
qed

end
